theory Spec2Isabelle
  imports Complex_Main "HOL-Library.Word"
begin

unbundle bit_operations_syntax

section \<open>Basic types\<close>

type_synonym byte = "8 word"
type_synonym u64 = "64 word"

text \<open>
  A Go \<open>time.Time\<close> is an instant; it is modelled by its number of nanoseconds since the
  Unix epoch (an unbounded integer, the location being irrelevant for \<open>Before\<close>,
  \<open>After\<close> and \<open>Unix\<close>). A \<open>time.Duration\<close> is a number of nanoseconds.
\<close>

type_synonym time = int
type_synonym duration = int

definition Unix :: "time \<Rightarrow> int" where
  "Unix t = t div 1000000000"

text \<open>Go errors: \<open>errors.New\<close>/\<open>errors.Errorf\<close> values and \<open>errors.Wrapf\<close> wrappers.\<close>

datatype error = Error string | Wrapf error string

section \<open>Package util\<close>

text \<open>\<open>Uint64ToBytes\<close>: eight bytes, little endian (\<open>binary.LittleEndian.PutUint64\<close>).\<close>

definition Uint64ToBytes :: "u64 \<Rightarrow> byte list" where
  "Uint64ToBytes u =
     [ucast u, ucast (drop_bit 8 u), ucast (drop_bit 16 u), ucast (drop_bit 24 u),
      ucast (drop_bit 32 u), ucast (drop_bit 40 u), ucast (drop_bit 48 u), ucast (drop_bit 56 u)]"

text \<open>
  \<open>BytesToUint64\<close> is \<open>binary.LittleEndian.Uint64\<close>: it reads the first eight bytes and
  panics on a shorter slice; the panic is the value \<open>None\<close>.
\<close>

fun BytesToUint64 :: "byte list \<Rightarrow> u64 option" where
  "BytesToUint64 (b0 # b1 # b2 # b3 # b4 # b5 # b6 # b7 # rest) =
     Some (ucast b0 OR push_bit 8 (ucast b1) OR push_bit 16 (ucast b2) OR push_bit 24 (ucast b3)
        OR push_bit 32 (ucast b4) OR push_bit 40 (ucast b5) OR push_bit 48 (ucast b6)
        OR push_bit 56 (ucast b7))"
| "BytesToUint64 bs = None"

section \<open>Strings, hex encoding and comparison\<close>

text \<open>\<open>hex.EncodeToString\<close>: two lowercase hexadecimal digits per byte.\<close>

definition hexDigit :: "nat \<Rightarrow> char" where
  "hexDigit n = ''0123456789abcdef'' ! (n mod 16)"

definition hexByte :: "byte \<Rightarrow> string" where
  "hexByte b = [hexDigit (unat b div 16), hexDigit (unat b mod 16)]"

definition hex :: "byte list \<Rightarrow> string" where
  "hex bs = concat (map hexByte bs)"

text \<open>The conversion \<open>[]byte(s)\<close> of a Go string.\<close>

definition stringBytes :: "string \<Rightarrow> byte list" where
  "stringBytes s = map (\<lambda>c. of_nat (of_char c)) s"

text \<open>\<open>strings.Compare\<close>: lexicographic comparison of the bytes; -1, 0 or 1.\<close>

fun stringsCompare :: "string \<Rightarrow> string \<Rightarrow> int" where
  "stringsCompare [] [] = 0"
| "stringsCompare [] (y # ys) = -1"
| "stringsCompare (x # xs) [] = 1"
| "stringsCompare (x # xs) (y # ys) =
     (if (of_char x :: nat) < of_char y then -1
      else if (of_char y :: nat) < of_char x then 1
      else stringsCompare xs ys)"

text \<open>\<open>big.Int.Cmp\<close>.\<close>

definition Cmp :: "int \<Rightarrow> int \<Rightarrow> int" where
  "Cmp x y = (if x < y then -1 else if x = y then 0 else 1)"

section \<open>Registrations, candidates, buckets and votes\<close>

text \<open>
  Modelled from the spec: the types \<open>Registration\<close>, \<open>Candidate\<close>, \<open>Bucket\<close> and
  \<open>Vote\<close> of package \<open>types\<close> and their methods are not among the sources. The spec's
  data model gives their fields; a candidate is a registration together with its accumulated
  score and self-staking tokens, a vote is a bucket together with its weighted score.
  Byte slices are lists (\<open>bytes.Equal\<close> does not distinguish nil from empty); the candidate
  name of a bucket may be nil, which the calculator tests, so it is an option.
\<close>

record Registration =
  name :: "byte list"
  address :: "byte list"
  operatorAddress :: "byte list"
  rewardAddress :: "byte list"
  selfStakingWeight :: u64

record Candidate = Registration +
  score :: int
  selfStakingTokens :: int

record Bucket =
  voter :: "byte list"
  candidate :: "byte list option"
  amount :: int
  startTime :: time
  duration :: duration
  decay :: bool

record Vote = Bucket +
  weighted :: int

text \<open>
  Modelled from the spec: \<open>NewCandidate\<close> initialises a candidate from a registration with
  the given score and self-staking tokens.
\<close>

definition NewCandidate :: "Registration \<Rightarrow> int \<Rightarrow> int \<Rightarrow> Candidate" where
  "NewCandidate r s t =
     \<lparr>name = name r, address = address r, operatorAddress = operatorAddress r,
      rewardAddress = rewardAddress r, selfStakingWeight = selfStakingWeight r,
      score = s, selfStakingTokens = t\<rparr>"

text \<open>
  Modelled from the spec: \<open>addScore\<close> and \<open>addSelfStakingTokens\<close> add into the
  accumulators, which the spec keeps non-negative and non-decreasing: a negative
  summand is the error these methods return. \<open>NewVote\<close> pairs the bucket with its
  weighted score and refuses a negative one.
\<close>

definition addScore :: "Candidate \<Rightarrow> int \<Rightarrow> error + Candidate" where
  "addScore c s =
     (if s < 0 then Inl (Error ''score cannot be negative'')
      else Inr (c\<lparr>score := score c + s\<rparr>))"

definition addSelfStakingTokens :: "Candidate \<Rightarrow> int \<Rightarrow> error + Candidate" where
  "addSelfStakingTokens c a =
     (if a < 0 then Inl (Error ''self staking tokens cannot be negative'')
      else Inr (c\<lparr>selfStakingTokens := selfStakingTokens c + a\<rparr>))"

definition NewVote :: "Bucket \<Rightarrow> int \<Rightarrow> error + Vote" where
  "NewVote b w =
     (if w < 0 then Inl (Error ''invalid weighted score'')
      else Inr \<lparr>voter = voter b, candidate = candidate b, amount = amount b,
                startTime = startTime b, duration = duration b, decay = decay b,
                weighted = w\<rparr>)"

section \<open>The result calculator\<close>

record item =
  Key :: string
  Value :: int
  Priority :: u64

text \<open>\<open>itemList.Less\<close>.\<close>

definition Less :: "item \<Rightarrow> item \<Rightarrow> bool" where
  "Less p q =
     (if Cmp (Value p) (Value q) = -1 then False
      else if Cmp (Value p) (Value q) = 1 then True
      else if Priority p < Priority q then False
      else if Priority p > Priority q then True
      else stringsCompare (Key p) (Key q) > 0)"

definition candidateZero :: string where
  "candidateZero = ''000000000000000000000000''"

record ResultCalculator =
  calcScore :: "Bucket \<Rightarrow> time \<Rightarrow> int"
  candidateFilter :: "Candidate \<Rightarrow> bool"
  bucketFilter :: "Bucket \<Rightarrow> bool"
  mintTime :: time
  candidates :: "string \<rightharpoonup> Candidate"
  candidateVotes :: "string \<rightharpoonup> Vote list"
  totalVotes :: int
  totalVotedStakes :: int
  calculated :: bool
  skipManified :: bool

definition NewResultCalculator ::
  "time \<Rightarrow> bool \<Rightarrow> (Bucket \<Rightarrow> bool) \<Rightarrow> (Bucket \<Rightarrow> time \<Rightarrow> int) \<Rightarrow> (Candidate \<Rightarrow> bool)
     \<Rightarrow> ResultCalculator" where
  "NewResultCalculator mt skip bf cs cf =
     \<lparr>calcScore = cs, candidateFilter = cf, bucketFilter = bf, mintTime = mt,
      candidates = Map.empty, candidateVotes = Map.empty, totalVotes = 0,
      totalVotedStakes = 0, calculated = False, skipManified = skip\<rparr>"

subsection \<open>AddRegistrations\<close>

text \<open>
  The loop of \<open>AddRegistrations\<close>. The calculator is mutated in place, so the state
  reached when the loop returns an error is part of the result.
\<close>

fun addRegistrationsLoop ::
  "ResultCalculator \<Rightarrow> Registration list \<Rightarrow> error option \<times> ResultCalculator" where
  "addRegistrationsLoop calc [] = (None, calc)"
| "addRegistrationsLoop calc (c # cs) =
     (if candidates calc (hex (name c)) \<noteq> None
      then (Some (Error (''Duplicate candidate '' @ hex (name c))), calc)
      else if selfStakingWeight c > 1 \<and> skipManified calc
      then addRegistrationsLoop calc cs
      else addRegistrationsLoop
             (calc\<lparr>candidates := (candidates calc)(hex (name c) \<mapsto> NewCandidate c 0 0),
                   candidateVotes := (candidateVotes calc)(hex (name c) \<mapsto> [])\<rparr>) cs)"

definition AddRegistrations ::
  "ResultCalculator \<Rightarrow> Registration list \<Rightarrow> error option \<times> ResultCalculator" where
  "AddRegistrations calc cs =
     (if calculated calc then (Some (Error ''Cannot modify a calculated result''), calc)
      else if Cmp (totalVotes calc) 0 > 0
      then (Some (Error ''Candidates should be added before any votes''), calc)
      else addRegistrationsLoop calc cs)"

subsection \<open>AddBuckets\<close>

text \<open>The vote list of a name; a missing key reads as the nil slice.\<close>

definition votesOf :: "ResultCalculator \<Rightarrow> string \<Rightarrow> Vote list" where
  "votesOf calc nm = (case candidateVotes calc nm of None \<Rightarrow> [] | Some vs \<Rightarrow> vs)"

text \<open>
  Lines 154 to 164, for a registered candidate whose (possibly scaled) amount and score are
  known. The candidate is a pointer into the map: what \<open>addSelfStakingTokens\<close> and
  \<open>addScore\<close> did to it stays when a later step returns an error.
\<close>

definition recordVote ::
  "ResultCalculator \<Rightarrow> string \<Rightarrow> Candidate \<Rightarrow> Bucket \<Rightarrow> int \<Rightarrow> int
     \<Rightarrow> error option \<times> ResultCalculator" where
  "recordVote calc nameHex cand b amt sc =
     (case NewVote b sc of
        Inl e \<Rightarrow> (Some e, calc\<lparr>candidates := (candidates calc)(nameHex \<mapsto> cand)\<rparr>)
      | Inr cVote \<Rightarrow>
         (case addScore cand sc of
            Inl e \<Rightarrow> (Some e, calc\<lparr>candidates := (candidates calc)(nameHex \<mapsto> cand)\<rparr>)
          | Inr cand' \<Rightarrow>
             (None, calc\<lparr>candidates := (candidates calc)(nameHex \<mapsto> cand'),
                         candidateVotes :=
                           (candidateVotes calc)(nameHex \<mapsto> votesOf calc nameHex @ [cVote]),
                         totalVotedStakes := totalVotedStakes calc + amt,
                         totalVotes := totalVotes calc + sc\<rparr>)))"

text \<open>
  The body of the loop of \<open>AddBuckets\<close> for one bucket. \<open>bucket.Amount()\<close> and
  \<open>calcScore\<close> hand out fresh integers, so the in-place \<open>Mul\<close> changes only the local
  values.
\<close>

definition addBucket :: "ResultCalculator \<Rightarrow> Bucket \<Rightarrow> error option \<times> ResultCalculator" where
  "addBucket calc b =
     (if bucketFilter calc b then (None, calc)
      else case candidate b of
        None \<Rightarrow> (None, calc)
      | Some nm \<Rightarrow>
         (if stringsCompare (hex nm) candidateZero = 0 then (None, calc)
          else
            (case candidates calc (hex nm) of
               None \<Rightarrow>
                 (None, calc\<lparr>totalVotedStakes := totalVotedStakes calc + amount b,
                             totalVotes := totalVotes calc + calcScore calc b (mintTime calc)\<rparr>)
             | Some cand \<Rightarrow>
                 (if voter b = address cand
                  then
                    (case addSelfStakingTokens cand (amount b * uint (selfStakingWeight cand)) of
                       Inl e \<Rightarrow> (Some e, calc)
                     | Inr cand' \<Rightarrow>
                         recordVote calc (hex nm) cand' b
                           (amount b * uint (selfStakingWeight cand))
                           (calcScore calc b (mintTime calc) * uint (selfStakingWeight cand)))
                  else recordVote calc (hex nm) cand b (amount b)
                         (calcScore calc b (mintTime calc))))))"

fun addBucketsLoop :: "ResultCalculator \<Rightarrow> Bucket list \<Rightarrow> error option \<times> ResultCalculator" where
  "addBucketsLoop calc [] = (None, calc)"
| "addBucketsLoop calc (b # bs) =
     (case addBucket calc b of
        (Some e, calc') \<Rightarrow> (Some e, calc')
      | (None, calc') \<Rightarrow> addBucketsLoop calc' bs)"

definition AddBuckets :: "ResultCalculator \<Rightarrow> Bucket list \<Rightarrow> error option \<times> ResultCalculator" where
  "AddBuckets calc bs =
     (if calculated calc then (Some (Error ''Cannot modify a calculated result''), calc)
      else addBucketsLoop calc bs)"

subsection \<open>Ranking\<close>

text \<open>
  \<open>blake2b.Sum256\<close> belongs to an external library; the calculator is modelled for any
  function from bytes to a digest, passed as the first argument. Go's result type is
  \<open>[32]byte\<close>: the theorems below that need the slice \<open>priority[:8]\<close> to hold eight
  bytes assume that every digest has length 32.
\<close>

type_synonym hashFn = "byte list \<Rightarrow> byte list"

text \<open>Lines 197, 200 and 204: the priority of the candidate stored under the key \<open>nm\<close>.\<close>

definition priorityOf :: "hashFn \<Rightarrow> string \<Rightarrow> time \<Rightarrow> u64 option" where
  "priorityOf sum256 nm mt =
     BytesToUint64 (take 8 (sum256 (stringBytes nm @ Uint64ToBytes (word_of_int (Unix mt)))))"

text \<open>
  The loop over the candidate map (lines 198 to 208). Go visits the keys of a map in an
  unspecified order: the order is the last argument, and the theorems hold for every
  enumeration of the keys. \<open>None\<close> is the panic of \<open>BytesToUint64\<close>.
\<close>

fun collectItems :: "hashFn \<Rightarrow> ResultCalculator \<Rightarrow> string list \<Rightarrow> item list option" where
  "collectItems sum256 calc [] = Some []"
| "collectItems sum256 calc (nm # rest) =
     (case candidates calc nm of
        None \<Rightarrow> collectItems sum256 calc rest
      | Some cand \<Rightarrow>
          (if \<not> candidateFilter calc cand
           then (case priorityOf sum256 nm (mintTime calc) of
                   None \<Rightarrow> None
                 | Some pr \<Rightarrow>
                     (case collectItems sum256 calc rest of
                        None \<Rightarrow> None
                      | Some its \<Rightarrow> Some (\<lparr>Key = nm, Value = score cand, Priority = pr\<rparr> # its)))
           else collectItems sum256 calc rest))"

text \<open>
  \<open>sort.Stable\<close> with \<open>Less\<close>: an insertion sort that never moves an element before
  one it is not \<open>Less\<close> than, so equal elements keep their order.
\<close>

fun insertItem :: "item \<Rightarrow> item list \<Rightarrow> item list" where
  "insertItem x [] = [x]"
| "insertItem x (y # ys) = (if Less y x then y # insertItem x ys else x # y # ys)"

fun sortStable :: "item list \<Rightarrow> item list" where
  "sortStable [] = []"
| "sortStable (x # xs) = insertItem x (sortStable xs)"

definition rankedItems :: "hashFn \<Rightarrow> ResultCalculator \<Rightarrow> string list \<Rightarrow> item list option" where
  "rankedItems sum256 calc order = map_option sortStable (collectItems sum256 calc order)"

definition filterAndSortCandidates ::
  "hashFn \<Rightarrow> ResultCalculator \<Rightarrow> string list \<Rightarrow> string list option" where
  "filterAndSortCandidates sum256 calc order = map_option (map Key) (rankedItems sum256 calc order)"

subsection \<open>Calculate\<close>

text \<open>
  Modelled from the spec: \<open>ElectionResult\<close> is not among the sources; its fields are those
  \<open>Calculate\<close> fills. The delegates are pointers read from the candidate map, so an entry
  is an option (a missing key reads as nil).
\<close>

record ElectionResult =
  MintTime :: time
  Delegates :: "Candidate option list"
  Votes :: "string \<rightharpoonup> Vote list"
  TotalVotedStakes :: int
  TotalVotes :: int

datatype calcOutcome = Result ElectionResult | Failed error | Panicked

definition Calculate ::
  "hashFn \<Rightarrow> ResultCalculator \<Rightarrow> string list \<Rightarrow> calcOutcome \<times> ResultCalculator" where
  "Calculate sum256 calc order =
     (if calculated calc then (Failed (Error ''Cannot modify a calculated result''), calc)
      else case filterAndSortCandidates sum256 calc order of
        None \<Rightarrow> (Panicked, calc)
      | Some qualifiers \<Rightarrow>
          (Result \<lparr>MintTime = mintTime calc,
                   Delegates = map (candidates calc) qualifiers,
                   Votes = (\<lambda>nm. if nm \<in> set qualifiers then Some (votesOf calc nm) else None),
                   TotalVotedStakes = totalVotedStakes calc,
                   TotalVotes = totalVotes calc\<rparr>,
           calc\<lparr>calculated := True\<rparr>))"

subsection \<open>The ranking order in the words of the specification\<close>

text \<open>
  The composite order of the specification on keys (score, priority, name): score
  descending, then priority descending as unsigned 64-bit values, then name descending by
  string comparison.
\<close>

definition compositeGreater :: "int \<times> u64 \<times> string \<Rightarrow> int \<times> u64 \<times> string \<Rightarrow> bool" where
  "compositeGreater a b =
     (case (a, b) of ((s1, p1, n1), (s2, p2, n2)) \<Rightarrow>
        s1 > s2 \<or> (s1 = s2 \<and> (p1 > p2 \<or> (p1 = p2 \<and> stringsCompare n1 n2 > 0))))"

text \<open>The key of a delegate: its score, its priority and its name in lowercase hex.\<close>

definition rankingKey ::
  "hashFn \<Rightarrow> ResultCalculator \<Rightarrow> Candidate \<Rightarrow> (int \<times> u64 \<times> string) option" where
  "rankingKey sum256 calc cand =
     map_option (\<lambda>p. (score cand, p, hex (name cand)))
       (priorityOf sum256 (hex (name cand)) (mintTime calc))"

definition keyGreater ::
  "(int \<times> u64 \<times> string) option \<Rightarrow> (int \<times> u64 \<times> string) option \<Rightarrow> bool" where
  "keyGreater ka kb =
     (case (ka, kb) of (Some a, Some b) \<Rightarrow> compositeGreater a b | _ \<Rightarrow> False)"

text \<open>
  Every candidate is stored under the lowercase hex form of its own name. It holds for a new
  calculator and \<open>AddRegistrations\<close> and \<open>AddBuckets\<close> keep it.
\<close>

definition wellKeyed :: "ResultCalculator \<Rightarrow> bool" where
  "wellKeyed calc = (\<forall>k cand. candidates calc k = Some cand \<longrightarrow> hex (name cand) = k)"

definition qualifies :: "ResultCalculator \<Rightarrow> string \<Rightarrow> bool" where
  "qualifies calc nm =
     (case candidates calc nm of None \<Rightarrow> False | Some cand \<Rightarrow> \<not> candidateFilter calc cand)"

text \<open>
  The priority as the specification words it: the digest of the candidate's original name
  bytes followed by the little-endian mint time.
\<close>

definition specPriority :: "hashFn \<Rightarrow> byte list \<Rightarrow> time \<Rightarrow> u64 option" where
  "specPriority sum256 nameBytes mt =
     BytesToUint64 (take 8 (sum256 (nameBytes @ Uint64ToBytes (word_of_int (Unix mt)))))"

section \<open>The committee\<close>

subsection \<open>Height manager\<close>

text \<open>
  Modelled from the spec: the height manager is not among the sources. It keeps the
  committed heights and mint times, both strictly increasing; \<open>add\<close> fails when the height
  or the mint time is not above the last one and appends otherwise; \<open>validate\<close> succeeds
  exactly when \<open>add\<close> would.
\<close>

record heightManager =
  heights :: "u64 list"
  times :: "time list"

definition heightManager_validate :: "heightManager \<Rightarrow> u64 \<Rightarrow> time \<Rightarrow> error option" where
  "heightManager_validate m height ts =
     (if heights m \<noteq> [] \<and> height \<le> last (heights m)
      then Some (Error ''invalid height'')
      else if times m \<noteq> [] \<and> ts \<le> last (times m)
      then Some (Error ''invalid mint time'')
      else None)"

definition heightManager_add ::
  "heightManager \<Rightarrow> u64 \<Rightarrow> time \<Rightarrow> error option \<times> heightManager" where
  "heightManager_add m height ts =
     (case heightManager_validate m height ts of
        Some e \<Rightarrow> (Some e, m)
      | None \<Rightarrow> (None, m\<lparr>heights := heights m @ [height], times := times m @ [ts]\<rparr>))"

subsection \<open>Storing results\<close>

text \<open>
  The key-value store, the serialisation of a result and the result cache are external to
  the sources: they are parameters. \<open>dbPut\<close> returns the store after the write or an error.
\<close>

record ('db, 'cache) collaborators =
  dbPut :: "'db \<Rightarrow> byte list \<Rightarrow> byte list \<Rightarrow> error + 'db"
  nextHeightKey :: "byte list"
  serialize :: "ElectionResult \<Rightarrow> error + byte list"
  cacheInsert :: "'cache \<Rightarrow> u64 \<Rightarrow> ElectionResult \<Rightarrow> 'cache"

record ('db, 'cache) committee =
  db :: 'db
  cache :: 'cache
  manager :: heightManager
  retryLimit :: "8 word"
  interval :: u64
  nextHeight :: u64
  lastUpdateTimestamp :: int

definition dbKey :: "u64 \<Rightarrow> byte list" where
  "dbKey height = Uint64ToBytes height"

definition storeResult ::
  "('db, 'cache) collaborators \<Rightarrow> ('db, 'cache) committee \<Rightarrow> u64 \<Rightarrow> ElectionResult
     \<Rightarrow> error option \<times> ('db, 'cache) committee" where
  "storeResult env ec height result =
     (case serialize env result of
        Inl e \<Rightarrow> (Some e, ec)
      | Inr data \<Rightarrow>
         (case dbPut env (db ec) (dbKey height) data of
            Inl e \<Rightarrow> (Some (Wrapf e ''failed to put election result into db''), ec)
          | Inr db1 \<Rightarrow>
             (case dbPut env db1 (nextHeightKey env) (dbKey (height + interval ec)) of
                Inl e \<Rightarrow> (Some e, ec\<lparr>db := db1\<rparr>)
              | Inr db2 \<Rightarrow>
                 (case heightManager_add (manager ec) height (MintTime result) of
                    (e, m) \<Rightarrow>
                      (e, ec\<lparr>db := db2, cache := cacheInsert env (cache ec) height result,
                             manager := m\<rparr>)))))"

text \<open>
  How \<open>storeInBatch\<close> ends: it returns (an error or nil), or \<open>zap.L().Fatal\<close> ends the
  process, or \<open>result.MintTime()\<close> dereferences a nil result.
\<close>

datatype batchOutcome = Returned "error option" | Fatal error | NilDereference

text \<open>
  The loop of \<open>storeInBatch\<close> over the sorted heights, followed by the lines after it.
  The second component records, for every height whose \<open>storeResult\<close> returned nil, the
  height and the value of \<open>nextHeight\<close> right after line 547, in the order of the stores.
  A key of \<open>results\<close> may hold a nil result; a missing key of \<open>errs\<close> reads as nil.
\<close>

fun storeHeights ::
  "('db, 'cache) collaborators \<Rightarrow> (u64 \<rightharpoonup> ElectionResult option) \<Rightarrow> (u64 \<rightharpoonup> error) \<Rightarrow> time
     \<Rightarrow> u64 list \<Rightarrow> ('db, 'cache) committee
     \<Rightarrow> batchOutcome \<times> (u64 \<times> u64) list \<times> ('db, 'cache) committee" where
  "storeHeights env results errs tipTime [] ec =
     (Returned None, [], ec\<lparr>lastUpdateTimestamp := Unix tipTime\<rparr>)"
| "storeHeights env results errs tipTime (height # rest) ec =
     (case errs height of
        Some err \<Rightarrow> (Returned (Some err), [], ec)
      | None \<Rightarrow>
         (case results height of
            Some (Some result) \<Rightarrow>
              (case heightManager_validate (manager ec) height (MintTime result) of
                 Some err \<Rightarrow> (Fatal err, [], ec)
               | None \<Rightarrow>
                  (case storeResult env ec height result of
                     (Some err, ec') \<Rightarrow>
                       (Returned (Some (Wrapf err ''failed to store result of height'')), [], ec')
                   | (None, ec') \<Rightarrow>
                       (case storeHeights env results errs tipTime rest
                               (ec'\<lparr>nextHeight := height + interval ec'\<rparr>) of
                          (out, stored, ec'') \<Rightarrow>
                            (out, (height, height + interval ec') # stored, ec''))))
          | _ \<Rightarrow> (NilDereference, [], ec)))"

text \<open>
  \<open>storeInBatch\<close>: the keys of \<open>results\<close>, visited in the order \<open>order\<close> of the map
  iteration, are sorted ascending.
\<close>

definition storeInBatch ::
  "('db, 'cache) collaborators \<Rightarrow> ('db, 'cache) committee \<Rightarrow> (u64 \<rightharpoonup> ElectionResult option)
     \<Rightarrow> (u64 \<rightharpoonup> error) \<Rightarrow> time \<Rightarrow> u64 list
     \<Rightarrow> batchOutcome \<times> (u64 \<times> u64) list \<times> ('db, 'cache) committee" where
  "storeInBatch env ec results errs tipTime order =
     storeHeights env results errs tipTime (sort order) ec"

text \<open>
  The ways \<open>storeInBatch\<close> stops before the first height with a fetch error: the fatal
  log, the nil dereference, or the wrapped error of \<open>storeResult\<close>.
\<close>

definition stoppedEarly :: "batchOutcome \<Rightarrow> bool" where
  "stoppedEarly out =
     (case out of
        Fatal err \<Rightarrow> True
      | NilDereference \<Rightarrow> True
      | Returned (Some (Wrapf err msg)) \<Rightarrow> msg = ''failed to store result of height''
      | _ \<Rightarrow> False)"

subsection \<open>Fetching with retries\<close>

text \<open>
  \<open>fetchResultByHeight\<close> talks to the chain client; it is a parameter that takes the state
  of the outside world and returns the pair (result, error) with the new state, so that
  every attempt leaves a trace in the world.
\<close>

function retryLoop ::
  "('w \<Rightarrow> u64 \<Rightarrow> (ElectionResult option \<times> error option) \<times> 'w) \<Rightarrow> 8 word \<Rightarrow> u64 \<Rightarrow> 8 word
     \<Rightarrow> ElectionResult option \<Rightarrow> error option \<Rightarrow> 'w
     \<Rightarrow> (ElectionResult option \<times> error option) \<times> 'w" where
  "retryLoop fetch limit height i result err w =
     (if i < limit
      then (case fetch w height of
              ((result', err'), w') \<Rightarrow>
                (if err' = None then ((result', None), w')
                 else retryLoop fetch limit height (i + 1) result' err' w'))
      else ((result, err), w))"
  by pat_completeness auto
termination
proof (relation "measure (\<lambda>(fetch, limit, height, i, result, err, w). unat limit - unat i)")
  show "wf (measure (\<lambda>(fetch, limit, height, i, result, err, w). unat limit - unat i))"
    by simp
next
  fix fetch :: "'w \<Rightarrow> u64 \<Rightarrow> (ElectionResult option \<times> error option) \<times> 'w"
    and limit i :: "8 word" and height :: u64 and result :: "ElectionResult option"
    and err :: "error option" and w :: 'w and x xa y xb ya
  assume "i < limit"
  then have lt: "unat i < unat limit" by (simp add: word_less_nat_alt)
  have "unat limit < 2 ^ 8" using unsigned_less[of limit, where ?'a = nat] by simp
  with lt have "(unat i + 1) mod 2 ^ 8 = unat i + 1" by simp
  then have "unat (i + 1) = unat i + 1" by (simp add: unat_word_ariths)
  with lt show "((fetch, limit, height, i + 1, xb, ya, y), fetch, limit, height, i, result, err, w)
        \<in> measure (\<lambda>(fetch, limit, height, i, result, err, w). unat limit - unat i)"
    by simp
qed

declare retryLoop.simps [simp del]

definition retryFetchResultByHeight ::
  "('w \<Rightarrow> u64 \<Rightarrow> (ElectionResult option \<times> error option) \<times> 'w) \<Rightarrow> ('db, 'cache) committee \<Rightarrow> u64
     \<Rightarrow> 'w \<Rightarrow> (ElectionResult option \<times> error option) \<times> 'w" where
  "retryFetchResultByHeight fetch ec height w =
     retryLoop fetch (retryLimit ec) height 0 None None w"

subsection \<open>Weighted votes\<close>

text \<open>
  Modelled from the spec: \<open>RemainingTime\<close> is a method of a type that is not among the
  sources. The spec gives \<open>remainingTime(now) = max(0, startTime + duration - now)\<close>.
\<close>

definition RemainingTime :: "Vote \<Rightarrow> time \<Rightarrow> duration" where
  "RemainingTime v now = max 0 (startTime v + duration v - now)"

text \<open>\<open>big.Int.BitLen\<close>: the number of bits of the absolute value.\<close>

fun bitLenNat :: "nat \<Rightarrow> nat" where
  "bitLenNat n = (if n = 0 then 0 else Suc (bitLenNat (n div 2)))"

declare bitLenNat.simps [simp del]

definition BitLen :: "int \<Rightarrow> nat" where
  "BitLen x = bitLenNat (nat \<bar>x\<bar>)"

text \<open>
  \<open>big.Float\<close>: a product is rounded to the precision of the receiver, to nearest even;
  \<open>Int\<close> truncates towards zero. A value of float64 or of \<open>big.Float\<close> is the real number
  it denotes.
\<close>

definition roundHalfEven :: "real \<Rightarrow> int" where
  "roundHalfEven x =
     (if x - of_int \<lfloor>x\<rfloor> < 1 / 2 then \<lfloor>x\<rfloor>
      else if x - of_int \<lfloor>x\<rfloor> > 1 / 2 then \<lfloor>x\<rfloor> + 1
      else if even \<lfloor>x\<rfloor> then \<lfloor>x\<rfloor> else \<lfloor>x\<rfloor> + 1)"

definition roundToPrec :: "nat \<Rightarrow> real \<Rightarrow> real" where
  "roundToPrec prec x =
     (if x = 0 then 0
      else of_int (roundHalfEven (x / 2 powr of_int (\<lfloor>log 2 \<bar>x\<bar>\<rfloor> + 1 - int prec)))
             * 2 powr of_int (\<lfloor>log 2 \<bar>x\<bar>\<rfloor> + 1 - int prec))"

definition truncToInt :: "real \<Rightarrow> int" where
  "truncToInt x = (if 0 \<le> x then \<lfloor>x\<rfloor> else \<lceil>x\<rceil>)"

text \<open>
  \<open>calcWeightedVotes\<close>. The float64 arithmetic of line 625 (\<open>math.Log\<close>, \<open>math.Ceil\<close> and
  the divisions), which gives the weight of a vote with time remaining, is the parameter
  \<open>logWeight\<close>, applied to the remaining seconds. \<open>SetInt\<close> gives the amount the precision
  \<open>max(BitLen, 64)\<close>, which \<open>Mul\<close> keeps for the product.
\<close>

definition calcWeightedVotes :: "(real \<Rightarrow> real) \<Rightarrow> Vote \<Rightarrow> time \<Rightarrow> int" where
  "calcWeightedVotes logWeight v now =
     (if now < startTime v then 0
      else truncToInt
             (roundToPrec (max (BitLen (amount v)) 64)
                (of_int (amount v) *
                   (if of_int (RemainingTime v now) / (1000000000 :: real) > 0
                    then logWeight (of_int (RemainingTime v now) / 1000000000)
                    else 1))))"

section \<open>Example values\<close>

text \<open>
  A stand-in for the digest function that shows its input: the first 32 bytes of the input
  padded with zeros. It has the length of a \<open>[32]byte\<close>.
\<close>

definition stubSum256 :: hashFn where
  "stubSum256 bs = take 32 (bs @ replicate 32 0)"

text \<open>
  A calculator minted at Unix second 1000000 that drops no bucket and no candidate and
  scores a bucket by its amount once it has started.
\<close>

definition exampleCalculator :: ResultCalculator where
  "exampleCalculator =
     NewResultCalculator 1000000000000000 False (\<lambda>b. False)
       (\<lambda>b t. if t < startTime b then 0 else amount b) (\<lambda>c. False)"

definition skippingCalculator :: ResultCalculator where
  "skippingCalculator =
     NewResultCalculator 1000000000000000 True (\<lambda>b. False)
       (\<lambda>b t. if t < startTime b then 0 else amount b) (\<lambda>c. False)"

definition exampleRegistration :: "byte \<Rightarrow> byte \<Rightarrow> u64 \<Rightarrow> Registration" where
  "exampleRegistration n a w =
     \<lparr>name = [n], address = [a], operatorAddress = [], rewardAddress = [],
      selfStakingWeight = w\<rparr>"

definition exampleBucket :: "byte \<Rightarrow> byte list option \<Rightarrow> int \<Rightarrow> time \<Rightarrow> Bucket" where
  "exampleBucket v c a start =
     \<lparr>voter = [v], candidate = c, amount = a, startTime = start,
      duration = 86400000000000, decay = True\<rparr>"

text \<open>The candidates \<open>aa\<close> (address 1) and \<open>bb\<close> (address 2), both of weight 1.\<close>

definition registeredCalculator :: ResultCalculator where
  "registeredCalculator =
     snd (AddRegistrations exampleCalculator
            [exampleRegistration 0xAA 1 1, exampleRegistration 0xBB 2 1])"

text \<open>The candidate \<open>ab\<close> alone.\<close>

definition singleCalculator :: ResultCalculator where
  "singleCalculator = snd (AddRegistrations exampleCalculator [exampleRegistration 0xAB 1 1])"

text \<open>The candidate \<open>aa\<close> of weight 3 and address 7.\<close>

definition weightedCalculator :: ResultCalculator where
  "weightedCalculator = snd (AddRegistrations exampleCalculator [exampleRegistration 0xAA 7 3])"

text \<open>
  \<open>registeredCalculator\<close> after a bucket of amount 100 for \<open>aa\<close> that starts after the
  mint time, so that its score is 0.
\<close>

definition votedCalculator :: ResultCalculator where
  "votedCalculator =
     snd (AddBuckets registeredCalculator
            [exampleBucket 9 (Some [0xAA]) 100 2000000000000000])"

definition exampleVote :: Vote where
  "exampleVote =
     \<lparr>voter = [1], candidate = Some [0xAA], amount = 100, startTime = 1000, duration = 500,
      decay = True, weighted = 0\<rparr>"

definition exampleResult :: "time \<Rightarrow> ElectionResult" where
  "exampleResult t =
     \<lparr>MintTime = t, Delegates = [], Votes = Map.empty, TotalVotedStakes = 0, TotalVotes = 0\<rparr>"

text \<open>A store and a cache that count their writes, and a committee over them.\<close>

definition exampleEnv :: "(nat, nat) collaborators" where
  "exampleEnv =
     \<lparr>dbPut = (\<lambda>d k v. Inr (Suc d)), nextHeightKey = [0x6E], serialize = (\<lambda>r. Inr []),
      cacheInsert = (\<lambda>c h r. Suc c)\<rparr>"

definition exampleCommittee :: "(nat, nat) committee" where
  "exampleCommittee =
     \<lparr>db = 0, cache = 0, manager = \<lparr>heights = [], times = []\<rparr>, retryLimit = 0,
      interval = 10, nextHeight = 100, lastUpdateTimestamp = 0\<rparr>"

definition exampleResults :: "u64 \<rightharpoonup> ElectionResult option" where
  "exampleResults =
     [100 \<mapsto> Some (exampleResult 1000), 110 \<mapsto> Some (exampleResult 1010), 120 \<mapsto> None]"

definition exampleErrs :: "u64 \<rightharpoonup> error" where
  "exampleErrs = [120 \<mapsto> Error ''timeout'']"

text \<open>A fetch that always fails and counts its attempts in the world.\<close>

definition failingFetch :: "nat \<Rightarrow> u64 \<Rightarrow> (ElectionResult option \<times> error option) \<times> nat" where
  "failingFetch w height = ((None, Some (Error ''unreachable'')), Suc w)"

section \<open>Properties of the comparison and of the sort\<close>

lemma stringsCompare_refl: "stringsCompare a a = 0"
  by (induction a) auto

lemma stringsCompare_eq: "stringsCompare a b = 0 \<Longrightarrow> a = b"
  by (induction a b rule: stringsCompare.induct) (auto split: if_splits)

lemma stringsCompare_asym: "stringsCompare a b > 0 \<Longrightarrow> \<not> stringsCompare b a > 0"
  by (induction a b rule: stringsCompare.induct) (auto split: if_splits)

lemma stringsCompare_total: "a \<noteq> b \<Longrightarrow> stringsCompare a b > 0 \<or> stringsCompare b a > 0"
  by (induction a b rule: stringsCompare.induct) (auto split: if_splits)

lemma stringsCompare_trans:
  "stringsCompare a b > 0 \<Longrightarrow> stringsCompare b c > 0 \<Longrightarrow> stringsCompare a c > 0"
  by (induction a b arbitrary: c rule: stringsCompare.induct; case_tac c)
     (auto split: if_splits)

lemma Less_asym: "Less p q \<Longrightarrow> \<not> Less q p"
  by (auto simp: Less_def Cmp_def split: if_splits dest: stringsCompare_asym)

lemma Less_trans: "Less p q \<Longrightarrow> Less q r \<Longrightarrow> Less p r"
  by (auto simp: Less_def Cmp_def split: if_splits dest: stringsCompare_trans)

lemma Less_total: "Key p \<noteq> Key q \<Longrightarrow> Less p q \<or> Less q p"
  using stringsCompare_total[of "Key p" "Key q"]
  by (auto simp: Less_def Cmp_def split: if_splits)

lemma set_insertItem: "set (insertItem x ys) = insert x (set ys)"
  by (induction ys) auto

lemma set_sortStable: "set (sortStable xs) = set xs"
  by (induction xs) (auto simp: set_insertItem)

lemma length_insertItem: "length (insertItem x ys) = Suc (length ys)"
  by (induction ys) auto

lemma length_sortStable: "length (sortStable xs) = length xs"
  by (induction xs) (auto simp: length_insertItem)

lemma map_Key_insertItem: "set (map Key (insertItem x ys)) = insert (Key x) (set (map Key ys))"
  by (induction ys) auto

lemma distinct_insertItem:
  "distinct (map Key ys) \<Longrightarrow> Key x \<notin> Key ` set ys \<Longrightarrow> distinct (map Key (insertItem x ys))"
  by (induction ys) (auto simp: set_insertItem)

lemma distinct_sortStable: "distinct (map Key xs) \<Longrightarrow> distinct (map Key (sortStable xs))"
  by (induction xs) (auto simp: distinct_insertItem set_sortStable)

lemma sorted_insertItem:
  "sorted_wrt Less ys \<Longrightarrow> Key x \<notin> Key ` set ys \<Longrightarrow> sorted_wrt Less (insertItem x ys)"
proof (induction ys)
  case Nil
  then show ?case by simp
next
  case (Cons y ys)
  show ?case
  proof (cases "Less y x")
    case True
    with Cons show ?thesis by (auto simp: set_insertItem)
  next
    case False
    from Cons.prems have "Key x \<noteq> Key y" by auto
    with False have xy: "Less x y" using Less_total by blast
    with Cons.prems have "\<forall>z\<in>set ys. Less x z" by (auto intro: Less_trans)
    with False xy Cons.prems show ?thesis by auto
  qed
qed

lemma sorted_sortStable: "distinct (map Key xs) \<Longrightarrow> sorted_wrt Less (sortStable xs)"
  by (induction xs) (auto simp: sorted_insertItem set_sortStable)

lemma sorted_wrt_Less_unique:
  "sorted_wrt Less xs \<Longrightarrow> sorted_wrt Less ys \<Longrightarrow> set xs = set ys \<Longrightarrow> xs = ys"
proof (induction xs arbitrary: ys)
  case Nil
  then show ?case by simp
next
  case (Cons x xs)
  then obtain y ys' where ys: "ys = y # ys'" by (cases ys) auto
  have irrefl: "\<And>z. \<not> Less z z" using Less_asym by blast
  have xy: "x = y"
  proof (rule ccontr)
    assume ne: "x \<noteq> y"
    with Cons.prems ys have "x \<in> set ys'" "y \<in> set xs" by auto
    with Cons.prems ys have "Less y x" "Less x y" by auto
    then show False using Less_asym by blast
  qed
  from Cons.prems ys have "x \<notin> set xs" "y \<notin> set ys'" using irrefl by auto
  with Cons.prems ys xy have "set xs = set ys'" by auto
  with Cons ys xy show ?case by auto
qed

lemma Less_composite:
  "Less p q = compositeGreater (Value p, Priority p, Key p) (Value q, Priority q, Key q)"
  by (auto simp: Less_def Cmp_def compositeGreater_def)

lemma BytesToUint64_Some: "8 \<le> length bs \<Longrightarrow> \<exists>u. BytesToUint64 bs = Some u"
  by (cases bs rule: BytesToUint64.cases) auto

lemma priorityOf_Some:
  "\<forall>bs. length (sum256 bs) = 32 \<Longrightarrow> \<exists>u. priorityOf sum256 nm mt = Some u"
  unfolding priorityOf_def by (rule BytesToUint64_Some) simp

lemma collectItems_keys:
  "collectItems sum256 calc order = Some its \<Longrightarrow> map Key its = filter (qualifies calc) order"
  by (induction order arbitrary: its)
     (auto simp: qualifies_def split: option.splits if_splits)

lemma collectItems_item:
  "collectItems sum256 calc order = Some its \<Longrightarrow> it \<in> set its \<Longrightarrow>
     \<exists>cand. candidates calc (Key it) = Some cand \<and> \<not> candidateFilter calc cand \<and>
            Value it = score cand \<and> priorityOf sum256 (Key it) (mintTime calc) = Some (Priority it)"
  by (induction order arbitrary: its)
     (auto split: option.splits if_splits)

lemma collectItems_None:
  "collectItems sum256 calc order = None \<longleftrightarrow>
     (\<exists>nm\<in>set order. qualifies calc nm \<and> priorityOf sum256 nm (mintTime calc) = None)"
  by (induction order)
     (auto simp: qualifies_def split: option.splits if_splits)

lemma collectItems_set:
  "collectItems sum256 calc order = Some its \<Longrightarrow>
     set its = {it. Key it \<in> set order \<and>
        (\<exists>cand. candidates calc (Key it) = Some cand \<and> \<not> candidateFilter calc cand \<and>
            Value it = score cand \<and> priorityOf sum256 (Key it) (mintTime calc) = Some (Priority it))}"
proof (induction order arbitrary: its)
  case Nil
  then show ?case by auto
next
  case (Cons nm rest)
  then show ?case
    apply (auto split: option.splits if_splits)
    done
qed

lemma rankedItems_sorted:
  assumes "distinct order" "rankedItems sum256 calc order = Some its"
  shows "sorted_wrt Less its" "distinct (map Key its)"
proof -
  from assms(2) obtain raw where raw: "collectItems sum256 calc order = Some raw" "its = sortStable raw"
    by (auto simp: rankedItems_def)
  from raw(1) assms(1) have "distinct (map Key raw)"
    by (simp add: collectItems_keys)
  then show "sorted_wrt Less its" "distinct (map Key its)"
    using raw(2) by (simp_all add: sorted_sortStable distinct_sortStable)
qed

lemma rankedItems_item:
  assumes "rankedItems sum256 calc order = Some its" "it \<in> set its"
  shows "\<exists>cand. candidates calc (Key it) = Some cand \<and> \<not> candidateFilter calc cand \<and>
            Value it = score cand \<and> priorityOf sum256 (Key it) (mintTime calc) = Some (Priority it)"
  using assms by (auto simp: rankedItems_def set_sortStable dest: collectItems_item)

lemma rankedItems_order_irrelevant:
  assumes "distinct o1" "distinct o2" "set o1 = set o2"
  shows "rankedItems sum256 calc o1 = rankedItems sum256 calc o2"
proof (cases "collectItems sum256 calc o1")
  case None
  then have "collectItems sum256 calc o2 = None"
    using assms(3) by (simp add: collectItems_None)
  with None show ?thesis by (simp add: rankedItems_def)
next
  case (Some its1)
  then have "collectItems sum256 calc o2 \<noteq> None"
    using assms(3) collectItems_None[of sum256 calc o1] collectItems_None[of sum256 calc o2] by auto
  then obtain its2 where its2: "collectItems sum256 calc o2 = Some its2" by auto
  have "set its1 = set its2"
    using collectItems_set[OF Some] collectItems_set[OF its2] assms(3) by simp
  then have s: "set (sortStable its1) = set (sortStable its2)" by (simp add: set_sortStable)
  have "distinct (map Key its1)" "distinct (map Key its2)"
    using Some its2 assms by (simp_all add: collectItems_keys)
  then have "sorted_wrt Less (sortStable its1)" "sorted_wrt Less (sortStable its2)"
    by (simp_all add: sorted_sortStable)
  then have "sortStable its1 = sortStable its2" using s by (rule sorted_wrt_Less_unique)
  with Some its2 show ?thesis by (simp add: rankedItems_def)
qed

section \<open>Properties of the calculator's keys, of the codec and of the examples\<close>

lemma wellKeyed_New: "wellKeyed (NewResultCalculator mt skip bf cs cf)"
  by (simp add: wellKeyed_def NewResultCalculator_def)

lemma wellKeyed_addRegistrationsLoop:
  "wellKeyed calc \<Longrightarrow> wellKeyed (snd (addRegistrationsLoop calc rs))"
proof (induction calc rs rule: addRegistrationsLoop.induct)
  case (1 calc)
  then show ?case by simp
next
  case (2 calc c cs)
  have "wellKeyed (calc\<lparr>candidates := (candidates calc)(hex (name c) \<mapsto> NewCandidate c 0 0),
                   candidateVotes := (candidateVotes calc)(hex (name c) \<mapsto> [])\<rparr>)"
    using "2.prems" by (simp add: wellKeyed_def NewCandidate_def)
  with 2 show ?case by simp
qed

lemma wellKeyed_AddRegistrations:
  "wellKeyed calc \<Longrightarrow> wellKeyed (snd (AddRegistrations calc rs))"
  by (simp add: AddRegistrations_def wellKeyed_addRegistrationsLoop)


lemma wellKeyed_addBucket: "wellKeyed calc \<Longrightarrow> wellKeyed (snd (addBucket calc b))"
  by (auto simp: wellKeyed_def addBucket_def recordVote_def addScore_def NewVote_def
        addSelfStakingTokens_def split: option.splits sum.splits if_splits)

lemma BytesToUint64_Uint64ToBytes: "BytesToUint64 (Uint64ToBytes u) = Some u"
proof -
  have "bit (ucast (ucast u :: byte) OR push_bit 8 (ucast (ucast (drop_bit 8 u) :: byte)) OR
        push_bit 16 (ucast (ucast (drop_bit 16 u) :: byte)) OR
        push_bit 24 (ucast (ucast (drop_bit 24 u) :: byte)) OR
        push_bit 32 (ucast (ucast (drop_bit 32 u) :: byte)) OR
        push_bit 40 (ucast (ucast (drop_bit 40 u) :: byte)) OR
        push_bit 48 (ucast (ucast (drop_bit 48 u) :: byte)) OR
        push_bit 56 (ucast (ucast (drop_bit 56 u) :: byte)) :: u64) n = bit u n" for n
  proof (cases "n < 64")
    case False
    then have "\<not> bit w n" for w :: u64
      using bit_imp_le_length[of w n] by auto
    then show ?thesis by simp
  next
    case True
    then consider "n < 8" | "8 \<le> n \<and> n < 16" | "16 \<le> n \<and> n < 24" | "24 \<le> n \<and> n < 32"
      | "32 \<le> n \<and> n < 40" | "40 \<le> n \<and> n < 48" | "48 \<le> n \<and> n < 56" | "56 \<le> n \<and> n < 64"
      by linarith
    then show ?thesis
      by cases (auto simp: bit_simps)
  qed
  then show ?thesis by (simp add: Uint64ToBytes_def bit_eq_iff)
qed

lemma hex_single: "hex [b] = hexByte b"
  by (simp add: hex_def)

lemma hexByte_examples:
  "hexByte 0xAA = ''aa''" "hexByte 0xBB = ''bb''" "hexByte 0xAB = ''ab''" "hexByte 0xCC = ''cc''"
  by (simp_all add: hexByte_def hexDigit_def)

lemmas example_defs = exampleCalculator_def skippingCalculator_def NewResultCalculator_def
  exampleRegistration_def exampleBucket_def AddRegistrations_def Cmp_def hex_single
  hexByte_examples NewCandidate_def

lemma new_calculators:
  "\<not> calculated exampleCalculator" "totalVotes exampleCalculator = 0"
  "candidates exampleCalculator = Map.empty" "\<not> skipManified exampleCalculator"
  "\<not> calculated skippingCalculator" "totalVotes skippingCalculator = 0"
  "candidates skippingCalculator = Map.empty" "skipManified skippingCalculator"
  by (simp_all add: example_defs)

lemma registered_candidates:
  "candidates registeredCalculator =
     [''aa'' \<mapsto> NewCandidate (exampleRegistration 0xAA 1 1) 0 0,
      ''bb'' \<mapsto> NewCandidate (exampleRegistration 0xBB 2 1) 0 0]"
  "\<not> calculated registeredCalculator" "totalVotes registeredCalculator = 0"
  by (simp_all add: registeredCalculator_def example_defs)

lemma single_candidates:
  "candidates singleCalculator = [''ab'' \<mapsto> NewCandidate (exampleRegistration 0xAB 1 1) 0 0]"
  "mintTime singleCalculator = 1000000000000000"
  "\<not> candidateFilter singleCalculator c"
  by (simp_all add: singleCalculator_def example_defs)

lemma stringBytes_ab: "stringBytes ''ab'' = [0x61, 0x62]"
  by (simp add: stringBytes_def)

lemma mint_bytes: "Uint64ToBytes (word_of_int (Unix 1000000000000000)) = [0x40, 0x42, 0x0F, 0, 0, 0, 0, 0]"
  by (simp add: Uint64ToBytes_def Unix_def)

lemma stub_code_input: "take 8 (stubSum256 [0x61, 0x62, 0x40, 0x42, 0x0F, 0, 0, 0, 0, 0]) = [0x61, 0x62, 0x40, 0x42, 0x0F, 0, 0, 0]"
  by (simp add: stubSum256_def)

lemma stub_spec_input: "take 8 (stubSum256 [0xAB, 0x40, 0x42, 0x0F, 0, 0, 0, 0, 0]) = [0xAB, 0x40, 0x42, 0x0F, 0, 0, 0, 0]"
  by (simp add: stubSum256_def)

lemma priority_single: "priorityOf stubSum256 ''ab'' 1000000000000000 = Some 0x0F42406261"
  by (simp add: priorityOf_def stringBytes_ab mint_bytes stub_code_input)

lemma spec_single: "specPriority stubSum256 [0xAB] 1000000000000000 = Some 0x0F4240AB"
  by (simp add: specPriority_def mint_bytes stub_spec_input)

lemma ranked_single:
  "rankedItems stubSum256 singleCalculator [''ab''] = Some [\<lparr>Key = ''ab'', Value = 0, Priority = 0x0F42406261\<rparr>]"
  by (simp add: rankedItems_def single_candidates priority_single NewCandidate_def)

lemma length_stubSum256: "length (stubSum256 bs) = 32"
  by (simp add: stubSum256_def)

lemma wellKeyed_examples: "wellKeyed singleCalculator" "wellKeyed registeredCalculator"
  by (simp_all add: singleCalculator_def registeredCalculator_def exampleCalculator_def
        wellKeyed_AddRegistrations wellKeyed_New)


lemma registered_facts:
  "mintTime registeredCalculator = 1000000000000000"
  "\<not> candidateFilter registeredCalculator c"
  "\<not> bucketFilter registeredCalculator b"
  "calcScore registeredCalculator b t = (if t < startTime b then 0 else amount b)"
  "candidateVotes registeredCalculator = [''aa'' \<mapsto> [], ''bb'' \<mapsto> []]"
  "totalVotedStakes registeredCalculator = 0"
  "\<not> skipManified registeredCalculator"
  by (simp_all add: registeredCalculator_def example_defs)

lemma dom_registered: "dom (candidates registeredCalculator) = {''aa'', ''bb''}"
  by (auto simp: registered_candidates)


lemma weighted_facts:
  "candidates weightedCalculator = [''aa'' \<mapsto> NewCandidate (exampleRegistration 0xAA 7 3) 0 0]"
  "\<not> calculated weightedCalculator"
  "\<not> bucketFilter weightedCalculator b"
  "calcScore weightedCalculator b t = (if t < startTime b then 0 else amount b)"
  "mintTime weightedCalculator = 1000000000000000"
  "totalVotes weightedCalculator = 0" "totalVotedStakes weightedCalculator = 0"
  "candidateVotes weightedCalculator = [''aa'' \<mapsto> []]"
  by (simp_all add: weightedCalculator_def example_defs)


section \<open>Ranking\<close>

text \<open>
  Claim C1, as amended. In every finalized calculator whose candidates are stored under the
  lowercase hex form of their names, the priority of each qualifying candidate is the first
  8 bytes, read as an unsigned 64-bit little-endian integer, of the digest of the bytes of
  the lowercase hex name string (the key of the candidate map, not the original name bytes)
  followed by the 8-byte little-endian encoding of the mint time's Unix seconds.
\<close>

theorem priority_hashes_hex_name:
  assumes "wellKeyed calc" "rankedItems sum256 calc order = Some its" "it \<in> set its"
  shows "\<exists>cand. candidates calc (Key it) = Some cand \<and> \<not> candidateFilter calc cand \<and>
           Key it = hex (name cand) \<and>
           BytesToUint64 (take 8 (sum256 (stringBytes (hex (name cand)) @
              Uint64ToBytes (word_of_int (Unix (mintTime calc)))))) = Some (Priority it)"
proof -
  from rankedItems_item[OF assms(2,3)] obtain cand where
    c: "candidates calc (Key it) = Some cand" "\<not> candidateFilter calc cand"
       "priorityOf sum256 (Key it) (mintTime calc) = Some (Priority it)" by blast
  from assms(1) c(1) have "hex (name cand) = Key it" by (simp add: wellKeyed_def)
  with c show ?thesis by (auto simp: priorityOf_def)
qed


theorem priority_hashes_hex_name_witness:
  "wellKeyed singleCalculator \<and>
   rankedItems stubSum256 singleCalculator [''ab''] =
     Some [\<lparr>Key = ''ab'', Value = 0, Priority = 65536025185\<rparr>] \<and>
   (\<exists>cand. candidates singleCalculator ''ab'' = Some cand \<and>
      \<not> candidateFilter singleCalculator cand \<and> ''ab'' = hex (name cand) \<and>
      BytesToUint64 (take 8 (stubSum256 (stringBytes (hex (name cand)) @
         Uint64ToBytes (word_of_int (Unix (mintTime singleCalculator)))))) = Some 65536025185)"
  using priority_hashes_hex_name[OF wellKeyed_examples(1) ranked_single,
      of "\<lparr>Key = ''ab'', Value = 0, Priority = 65536025185\<rparr>"]
    wellKeyed_examples(1) ranked_single
  by simp


text \<open>
  Claim C1 as stated fails: for the candidate named by the single byte AB the calculator
  hashes the two bytes of the string \<open>ab\<close>, not the byte AB, and the two priorities differ.
\<close>

theorem priority_not_from_name_bytes:
  "rankedItems stubSum256 singleCalculator [''ab''] =
     Some [\<lparr>Key = ''ab'', Value = 0, Priority = 65536025185\<rparr>] \<and>
   candidates singleCalculator ''ab'' = Some (NewCandidate (exampleRegistration 0xAB 1 1) 0 0) \<and>
   name (NewCandidate (exampleRegistration 0xAB 1 1) 0 0) = [0xAB] \<and>
   specPriority stubSum256 [0xAB] (mintTime singleCalculator) = Some 256000171 \<and>
   specPriority stubSum256 [0xAB] (mintTime singleCalculator) \<noteq> Some 65536025185"
  by (simp add: ranked_single single_candidates spec_single NewCandidate_def
        exampleRegistration_def)


text \<open>
  Claim C2. \<open>Calculate\<close> on a calculator that is not yet calculated returns a result, and
  its delegate list is strictly descending in the composite key (score, priority, name):
  every delegate has a strictly greater key than every later one, adjacent ones included.
\<close>

theorem delegates_strictly_descending:
  assumes "distinct order" "set order = dom (candidates calc)" "wellKeyed calc"
      and "\<not> calculated calc" "\<forall>bs. length (sum256 bs) = 32"
  shows "\<exists>res cs. Calculate sum256 calc order = (Result res, calc\<lparr>calculated := True\<rparr>) \<and>
           Delegates res = map Some cs \<and>
           sorted_wrt (\<lambda>a b. keyGreater (rankingKey sum256 calc a) (rankingKey sum256 calc b)) cs"
proof -
  have "collectItems sum256 calc order \<noteq> None"
  proof
    assume "collectItems sum256 calc order = None"
    then obtain nm where "priorityOf sum256 nm (mintTime calc) = None"
      by (auto simp: collectItems_None)
    with priorityOf_Some[OF assms(5), of nm "mintTime calc"] show False by simp
  qed
  then obtain its where its: "rankedItems sum256 calc order = Some its"
    by (auto simp: rankedItems_def)
  define f where "f = (\<lambda>it::item. the (candidates calc (Key it)))"
  have item: "candidates calc (Key it) = Some (f it) \<and> 
              rankingKey sum256 calc (f it) = Some (Value it, Priority it, Key it)"
    if "it \<in> set its" for it
  proof -
    from rankedItems_item[OF its that] obtain cand where
      c: "candidates calc (Key it) = Some cand" "Value it = score cand"
         "priorityOf sum256 (Key it) (mintTime calc) = Some (Priority it)" by blast
    from assms(3) c(1) have "hex (name cand) = Key it" by (simp add: wellKeyed_def)
    with c show ?thesis by (simp add: f_def rankingKey_def)
  qed
  have d: "map (candidates calc) (map Key its) = map Some (map f its)"
    using item by simp
  have "sorted_wrt Less its" using assms(1) its by (rule rankedItems_sorted)
  then have "sorted_wrt (\<lambda>a b. keyGreater (rankingKey sum256 calc (f a)) (rankingKey sum256 calc (f b))) its"
    by (rule sorted_wrt_mono_rel[rotated]) (simp add: item keyGreater_def Less_composite)
  then have srt: "sorted_wrt (\<lambda>a b. keyGreater (rankingKey sum256 calc a) (rankingKey sum256 calc b)) (map f its)"
    by (simp add: sorted_wrt_map)
  have "\<exists>res. Calculate sum256 calc order = (Result res, calc\<lparr>calculated := True\<rparr>) \<and>
          Delegates res = map Some (map f its)"
    using d its assms(4) by (simp add: Calculate_def filterAndSortCandidates_def)
  with srt show ?thesis by blast
qed


theorem delegates_strictly_descending_witness:
  "distinct [''aa'', ''bb''] \<and> set [''aa'', ''bb''] = dom (candidates registeredCalculator) \<and>
   wellKeyed registeredCalculator \<and> \<not> calculated registeredCalculator \<and>
   (\<forall>bs. length (stubSum256 bs) = 32) \<and>
   (\<exists>res cs. Calculate stubSum256 registeredCalculator [''aa'', ''bb''] =
        (Result res, registeredCalculator\<lparr>calculated := True\<rparr>) \<and>
      Delegates res = map Some cs \<and>
      sorted_wrt (\<lambda>a b. keyGreater (rankingKey stubSum256 registeredCalculator a)
                          (rankingKey stubSum256 registeredCalculator b)) cs)"
proof -
  have d: "distinct [''aa'', ''bb'']" by simp
  have s: "set [''aa'', ''bb''] = dom (candidates registeredCalculator)"
    by (auto simp: dom_registered)
  have l: "\<forall>bs. length (stubSum256 bs) = 32" by (simp add: length_stubSum256)
  show ?thesis
    using delegates_strictly_descending[OF d s wellKeyed_examples(2) registered_candidates(2) l]
      d s wellKeyed_examples(2) registered_candidates(2) l
    by blast
qed


text \<open>
  Claim C3. The calculator's operations are functions of their inputs, so identical inputs
  give identical calculators; the only freedom left is the order in which Go visits the
  candidate map. For any two enumerations of the keys \<open>Calculate\<close> returns the same
  outcome, hence the same ranked delegate sequence.
\<close>

theorem Calculate_independent_of_map_order:
  assumes "distinct o1" "set o1 = dom (candidates calc)"
      and "distinct o2" "set o2 = dom (candidates calc)"
  shows "Calculate sum256 calc o1 = Calculate sum256 calc o2"
proof -
  have "rankedItems sum256 calc o1 = rankedItems sum256 calc o2"
    using assms by (intro rankedItems_order_irrelevant) simp_all
  then show ?thesis by (simp add: Calculate_def filterAndSortCandidates_def)
qed


theorem Calculate_independent_of_map_order_witness:
  "distinct [''aa'', ''bb''] \<and> set [''aa'', ''bb''] = dom (candidates registeredCalculator) \<and>
   distinct [''bb'', ''aa''] \<and> set [''bb'', ''aa''] = dom (candidates registeredCalculator) \<and>
   Calculate stubSum256 registeredCalculator [''aa'', ''bb''] =
   Calculate stubSum256 registeredCalculator [''bb'', ''aa'']"
proof -
  have d1: "distinct [''aa'', ''bb'']" and d2: "distinct [''bb'', ''aa'']" by simp_all
  have s1: "set [''aa'', ''bb''] = dom (candidates registeredCalculator)"
    and s2: "set [''bb'', ''aa''] = dom (candidates registeredCalculator)"
    by (auto simp: dom_registered)
  show ?thesis
    using Calculate_independent_of_map_order[OF d1 s1 d2 s2, of stubSum256] d1 d2 s1 s2
    by blast
qed


section \<open>Buckets\<close>

lemma replicate12: "replicate 12 (0::byte) = [0,0,0,0,0,0,0,0,0,0,0,0]"
  by (simp add: numeral_eq_Suc)

lemma hexByte_zero: "hexByte 0 = ''00''"
  by (simp add: hexByte_def hexDigit_def)

lemma hex_zero12: "hex (replicate 12 0) = candidateZero"
  by (simp add: replicate12 hex_def hexByte_zero candidateZero_def)

lemma addBucket_skip:
  "candidate b = None \<or> candidate b = Some (replicate 12 0) \<Longrightarrow> addBucket calc b = (None, calc)"
  by (auto simp: addBucket_def hex_zero12 stringsCompare_refl)

lemma addBucketsLoop_append:
  "addBucketsLoop calc (pre @ post) =
     (case addBucketsLoop calc pre of
        (Some e, calc') \<Rightarrow> (Some e, calc')
      | (None, calc') \<Rightarrow> addBucketsLoop calc' post)"
  by (induction pre arbitrary: calc) (auto split: prod.splits option.splits)


text \<open>
  Claim C4. In a calculator that is not calculated, a bucket that passes the bucket filter,
  whose candidate is registered under a name other than the reserved one and whose voter is
  the candidate's address, with amount \<open>m\<close> and score \<open>s\<close> (both non-negative) and
  self-staking weight \<open>k\<close>, adds \<open>k * m\<close> to \<open>totalVotedStakes\<close> and to the candidate's
  \<open>selfStakingTokens\<close>, adds \<open>k * s\<close> to the candidate's score and to \<open>totalVotes\<close>,
  and appends a vote that carries the score \<open>k * s\<close>.
\<close>

theorem self_vote_scaling:
  assumes "\<not> calculated calc" "\<not> bucketFilter calc b"
      and "candidate b = Some nm" "hex nm \<noteq> candidateZero"
      and "candidates calc (hex nm) = Some cand" "voter b = address cand"
      and "0 \<le> amount b" "0 \<le> calcScore calc b (mintTime calc)"
  shows "AddBuckets calc [b] =
     (None, calc\<lparr>candidates := (candidates calc)(hex nm \<mapsto>
                    cand\<lparr>selfStakingTokens :=
                            selfStakingTokens cand + uint (selfStakingWeight cand) * amount b,
                         score := score cand +
                            uint (selfStakingWeight cand) * calcScore calc b (mintTime calc)\<rparr>),
                 candidateVotes := (candidateVotes calc)(hex nm \<mapsto> votesOf calc (hex nm) @
                    [\<lparr>voter = voter b, candidate = candidate b, amount = amount b,
                      startTime = startTime b, duration = duration b, decay = decay b,
                      weighted = uint (selfStakingWeight cand) * calcScore calc b (mintTime calc)\<rparr>]),
                 totalVotedStakes :=
                   totalVotedStakes calc + uint (selfStakingWeight cand) * amount b,
                 totalVotes :=
                   totalVotes calc + uint (selfStakingWeight cand) * calcScore calc b (mintTime calc)\<rparr>)"
proof -
  have z: "stringsCompare (hex nm) candidateZero \<noteq> 0"
    using assms(4) stringsCompare_eq by blast
  have a: "\<not> amount b * uint (selfStakingWeight cand) < 0"
    using assms(7) by (simp add: mult_less_0_iff)
  have s: "\<not> calcScore calc b (mintTime calc) * uint (selfStakingWeight cand) < 0"
    using assms(8) by (simp add: mult_less_0_iff)
  show ?thesis
    using assms(1,2,3,5,6) z a s
    by (simp add: AddBuckets_def addBucket_def addSelfStakingTokens_def recordVote_def
          NewVote_def addScore_def mult.commute)
qed


theorem self_vote_scaling_witness:
  "\<not> calculated weightedCalculator \<and>
   \<not> bucketFilter weightedCalculator (exampleBucket 7 (Some [0xAA]) 10 0) \<and>
   hex [0xAA] \<noteq> candidateZero \<and>
   candidates weightedCalculator (hex [0xAA]) = Some (NewCandidate (exampleRegistration 0xAA 7 3) 0 0) \<and>
   fst (AddBuckets weightedCalculator [exampleBucket 7 (Some [0xAA]) 10 0]) = None \<and>
   totalVotedStakes (snd (AddBuckets weightedCalculator [exampleBucket 7 (Some [0xAA]) 10 0])) = 30 \<and>
   totalVotes (snd (AddBuckets weightedCalculator [exampleBucket 7 (Some [0xAA]) 10 0])) = 30 \<and>
   map_option score (candidates (snd (AddBuckets weightedCalculator
       [exampleBucket 7 (Some [0xAA]) 10 0])) ''aa'') = Some 30 \<and>
   map_option selfStakingTokens (candidates (snd (AddBuckets weightedCalculator
       [exampleBucket 7 (Some [0xAA]) 10 0])) ''aa'') = Some 30 \<and>
   map (\<lambda>v. weighted v) (votesOf (snd (AddBuckets weightedCalculator
       [exampleBucket 7 (Some [0xAA]) 10 0])) ''aa'') = [30]"
proof -
  let ?b = "exampleBucket 7 (Some [0xAA]) 10 0"
  let ?cand = "NewCandidate (exampleRegistration 0xAA 7 3) 0 0"
  have h1: "\<not> calculated weightedCalculator" by (simp add: weighted_facts)
  have h2: "\<not> bucketFilter weightedCalculator ?b" by (simp add: weighted_facts)
  have h3: "candidate ?b = Some [0xAA]" by (simp add: exampleBucket_def)
  have h4: "hex [0xAA] \<noteq> candidateZero" by (simp add: hex_single hexByte_examples candidateZero_def)
  have h5: "candidates weightedCalculator (hex [0xAA]) = Some ?cand"
    by (simp add: weighted_facts hex_single hexByte_examples)
  have h6: "voter ?b = address ?cand"
    by (simp add: exampleBucket_def NewCandidate_def exampleRegistration_def)
  have h7: "0 \<le> amount ?b" by (simp add: exampleBucket_def)
  have h8: "0 \<le> calcScore weightedCalculator ?b (mintTime weightedCalculator)"
    by (simp add: weighted_facts exampleBucket_def)
  show ?thesis
    using self_vote_scaling[OF h1 h2 h3 h4 h5 h6 h7 h8] h1 h2 h4 h5
    by (simp add: weighted_facts exampleBucket_def NewCandidate_def exampleRegistration_def
          hex_single hexByte_examples votesOf_def)
qed

text \<open>
  Claim C5. A bucket whose candidate name is missing or is the reserved name of 12 zero
  bytes is skipped: the loop body returns the calculator unchanged, whatever \<open>calcScore\<close>
  is, and \<open>AddBuckets\<close> on a list with the bucket equals \<open>AddBuckets\<close> on the list
  without it, so it reaches neither the totals nor any candidate.
\<close>

theorem reserved_or_missing_name_is_skipped:
  assumes "candidate b = None \<or> candidate b = Some (replicate 12 0)"
  shows "addBucket calc b = (None, calc) \<and>
         AddBuckets calc (pre @ b # post) = AddBuckets calc (pre @ post)"
proof -
  have skip: "addBucket c b = (None, c)" for c
    using assms by (rule addBucket_skip)
  have "addBucketsLoop c (b # post) = addBucketsLoop c post" for c
    by (simp add: skip)
  then have "addBucketsLoop calc (pre @ b # post) = addBucketsLoop calc (pre @ post)"
    by (simp add: addBucketsLoop_append[of calc pre] split: prod.splits option.splits)
  with skip show ?thesis by (simp add: AddBuckets_def)
qed


theorem reserved_or_missing_name_is_skipped_witness:
  "candidate (exampleBucket 9 (Some (replicate 12 0)) 100 0) = Some (replicate 12 0) \<and>
   addBucket registeredCalculator (exampleBucket 9 (Some (replicate 12 0)) 100 0) =
     (None, registeredCalculator) \<and>
   candidate (exampleBucket 9 None 100 0) = None \<and>
   AddBuckets registeredCalculator [exampleBucket 9 None 100 0] = (None, registeredCalculator)"
proof -
  have z: "candidate (exampleBucket 9 (Some (replicate 12 0)) 100 0) = None \<or>
           candidate (exampleBucket 9 (Some (replicate 12 0)) 100 0) = Some (replicate 12 0)"
    by (simp add: exampleBucket_def)
  have n: "candidate (exampleBucket 9 None 100 0) = None \<or>
           candidate (exampleBucket 9 None 100 0) = Some (replicate 12 0)"
    by (simp add: exampleBucket_def)
  show ?thesis
    using reserved_or_missing_name_is_skipped[OF z, of registeredCalculator "[]" "[]"]
      reserved_or_missing_name_is_skipped[OF n, of registeredCalculator "[]" "[]"]
    by (simp add: exampleBucket_def AddBuckets_def registered_candidates)
qed

section \<open>Registrations\<close>

lemma voted_facts:
  "fst (AddBuckets registeredCalculator [exampleBucket 9 (Some [0xAA]) 100 2000000000000000]) = None"
  "totalVotes votedCalculator = 0" "totalVotedStakes votedCalculator = 100"
  "\<not> calculated votedCalculator" "\<not> skipManified votedCalculator"
  "candidates votedCalculator ''cc'' = None"
  "map (\<lambda>v. amount v) (votesOf votedCalculator ''aa'') = [100]"
  by (simp_all add: votedCalculator_def AddBuckets_def addBucket_def recordVote_def NewVote_def
        addScore_def registered_candidates registered_facts exampleBucket_def hex_single
        hexByte_examples candidateZero_def NewCandidate_def exampleRegistration_def votesOf_def)

text \<open>
  Claim C6, as amended. \<open>AddRegistrations\<close> fails whenever the calculator is already
  calculated or its \<open>totalVotes\<close> is positive: it returns an error and leaves the
  calculator as it was, so no candidate is added.
\<close>

theorem AddRegistrations_guard:
  assumes "calculated calc \<or> 0 < totalVotes calc"
  shows "\<exists>e. AddRegistrations calc rs = (Some e, calc)"
  using assms by (auto simp: AddRegistrations_def Cmp_def)

theorem AddRegistrations_guard_witness:
  "(calculated (votedCalculator\<lparr>totalVotes := 100\<rparr>) \<or>
      0 < totalVotes (votedCalculator\<lparr>totalVotes := 100\<rparr>)) \<and>
   (\<exists>e. AddRegistrations (votedCalculator\<lparr>totalVotes := 100\<rparr>) [exampleRegistration 0xCC 3 1] =
      (Some e, votedCalculator\<lparr>totalVotes := 100\<rparr>))"
proof -
  have h: "calculated (votedCalculator\<lparr>totalVotes := 100\<rparr>) \<or>
           0 < totalVotes (votedCalculator\<lparr>totalVotes := 100\<rparr>)" by simp
  show ?thesis
    using AddRegistrations_guard[OF h, of "[exampleRegistration 0xCC 3 1]"] h by blast
qed

text \<open>
  Claim C6 as stated fails: after \<open>AddBuckets\<close> has recorded a vote of amount 100 whose
  score is 0, \<open>totalVotes\<close> is still 0 and \<open>AddRegistrations\<close> succeeds and adds a
  candidate.
\<close>

theorem zero_score_vote_does_not_block_registrations:
  "fst (AddBuckets registeredCalculator [exampleBucket 9 (Some [0xAA]) 100 2000000000000000]) = None \<and>
   votedCalculator =
     snd (AddBuckets registeredCalculator [exampleBucket 9 (Some [0xAA]) 100 2000000000000000]) \<and>
   map (\<lambda>v. amount v) (votesOf votedCalculator ''aa'') = [100] \<and>
   totalVotedStakes votedCalculator = 100 \<and>
   fst (AddRegistrations votedCalculator [exampleRegistration 0xCC 3 1]) = None \<and>
   candidates (snd (AddRegistrations votedCalculator [exampleRegistration 0xCC 3 1])) ''cc'' =
     Some (NewCandidate (exampleRegistration 0xCC 3 1) 0 0)"
  by (simp add: voted_facts AddRegistrations_def Cmp_def exampleRegistration_def hex_single
        hexByte_examples votedCalculator_def[symmetric])

lemma addRegistrationsLoop_keeps:
  "addRegistrationsLoop calc rs = (eo, calc') \<Longrightarrow>
     skipManified calc' = skipManified calc \<and>
     (\<forall>k v. candidates calc k = Some v \<longrightarrow> candidates calc' k = Some v)"
proof (induction calc rs arbitrary: eo calc' rule: addRegistrationsLoop.induct)
  case (1 calc)
  then show ?case by simp
next
  case (2 calc c cs)
  show ?case
  proof (cases "candidates calc (hex (name c)) \<noteq> None")
    case True
    with "2.prems" show ?thesis by simp
  next
    case dup: False
    show ?thesis
    proof (cases "selfStakingWeight c > 1 \<and> skipManified calc")
      case True
      with dup "2.prems" have "addRegistrationsLoop calc cs = (eo, calc')" by simp
      with "2.IH"(1) dup True show ?thesis by blast
    next
      case False
      let ?calc1 = "calc\<lparr>candidates := (candidates calc)(hex (name c) \<mapsto> NewCandidate c 0 0),
                        candidateVotes := (candidateVotes calc)(hex (name c) \<mapsto> [])\<rparr>"
      from dup False "2.prems" have "addRegistrationsLoop ?calc1 cs = (eo, calc')"
        by (auto split: if_splits)
      with "2.IH"(2) dup False have
        "skipManified calc' = skipManified ?calc1 \<and>
         (\<forall>k v. candidates ?calc1 k = Some v \<longrightarrow> candidates calc' k = Some v)" by blast
      moreover have "candidates ?calc1 k = Some v" if "candidates calc k = Some v" for k v
        using that dup by auto
      ultimately show ?thesis by simp
    qed
  qed
qed

lemma addRegistrationsLoop_error:
  "addRegistrationsLoop calc rs = (Some e, calc') \<Longrightarrow>
     \<exists>pre d post. rs = pre @ d # post \<and> e = Error (''Duplicate candidate '' @ hex (name d)) \<and>
        addRegistrationsLoop calc pre = (None, calc') \<and> candidates calc' (hex (name d)) \<noteq> None"
proof (induction calc rs arbitrary: calc' rule: addRegistrationsLoop.induct)
  case (1 calc)
  then show ?case by simp
next
  case (2 calc c cs)
  show ?case
  proof (cases "candidates calc (hex (name c)) \<noteq> None")
    case True
    with "2.prems" have "e = Error (''Duplicate candidate '' @ hex (name c))" "calc' = calc"
      by simp_all
    with True have "c # cs = [] @ c # cs \<and> e = Error (''Duplicate candidate '' @ hex (name c)) \<and>
        addRegistrationsLoop calc [] = (None, calc') \<and> candidates calc' (hex (name c)) \<noteq> None"
      by simp
    then show ?thesis by blast
  next
    case dup: False
    show ?thesis
    proof (cases "selfStakingWeight c > 1 \<and> skipManified calc")
      case True
      with dup "2.prems" have "addRegistrationsLoop calc cs = (Some e, calc')" by simp
      with "2.IH"(1) dup True obtain pre d post where
        p: "cs = pre @ d # post" "e = Error (''Duplicate candidate '' @ hex (name d))"
           "addRegistrationsLoop calc pre = (None, calc')" "candidates calc' (hex (name d)) \<noteq> None"
        by blast
      from p(3) dup True have "addRegistrationsLoop calc (c # pre) = (None, calc')" by simp
      with p(1,2,4) have "c # cs = (c # pre) @ d # post \<and>
          e = Error (''Duplicate candidate '' @ hex (name d)) \<and>
          addRegistrationsLoop calc (c # pre) = (None, calc') \<and>
          candidates calc' (hex (name d)) \<noteq> None" by simp
      then show ?thesis by blast
    next
      case False
      let ?calc1 = "calc\<lparr>candidates := (candidates calc)(hex (name c) \<mapsto> NewCandidate c 0 0),
                        candidateVotes := (candidateVotes calc)(hex (name c) \<mapsto> [])\<rparr>"
      from dup False "2.prems" have "addRegistrationsLoop ?calc1 cs = (Some e, calc')"
        by (auto split: if_splits)
      with "2.IH"(2) dup False obtain pre d post where
        p: "cs = pre @ d # post" "e = Error (''Duplicate candidate '' @ hex (name d))"
           "addRegistrationsLoop ?calc1 pre = (None, calc')" "candidates calc' (hex (name d)) \<noteq> None"
        by blast
      from p(3) dup False have "addRegistrationsLoop calc (c # pre) = (None, calc')"
        by (auto split: if_splits)
      with p(1,2,4) have "c # cs = (c # pre) @ d # post \<and>
          e = Error (''Duplicate candidate '' @ hex (name d)) \<and>
          addRegistrationsLoop calc (c # pre) = (None, calc') \<and>
          candidates calc' (hex (name d)) \<noteq> None" by simp
      then show ?thesis by blast
    qed
  qed
qed

lemma addRegistrationsLoop_inserted:
  "addRegistrationsLoop calc pre = (None, calc') \<Longrightarrow> r \<in> set pre \<Longrightarrow>
     \<not> (selfStakingWeight r > 1 \<and> skipManified calc) \<Longrightarrow>
     candidates calc' (hex (name r)) = Some (NewCandidate r 0 0)"
proof (induction calc pre arbitrary: calc' rule: addRegistrationsLoop.induct)
  case (1 calc)
  then show ?case by simp
next
  case (2 calc c cs)
  show ?case
  proof (cases "candidates calc (hex (name c)) \<noteq> None")
    case True
    with "2.prems" show ?thesis by simp
  next
    case dup: False
    show ?thesis
    proof (cases "selfStakingWeight c > 1 \<and> skipManified calc")
      case True
      with dup "2.prems" have l: "addRegistrationsLoop calc cs = (None, calc')" by simp
      from True "2.prems"(2,3) have "r \<in> set cs" by auto
      with "2.IH"(1) dup True l "2.prems"(3) show ?thesis by blast
    next
      case False
      let ?calc1 = "calc\<lparr>candidates := (candidates calc)(hex (name c) \<mapsto> NewCandidate c 0 0),
                        candidateVotes := (candidateVotes calc)(hex (name c) \<mapsto> [])\<rparr>"
      from dup False "2.prems" have l: "addRegistrationsLoop ?calc1 cs = (None, calc')"
        by (auto split: if_splits)
      show ?thesis
      proof (cases "r = c")
        case True
        have "candidates ?calc1 (hex (name c)) = Some (NewCandidate c 0 0)" by simp
        with addRegistrationsLoop_keeps[OF l] True show ?thesis by blast
      next
        case ne: False
        with "2.prems"(2) have "r \<in> set cs" by simp
        moreover from "2.prems"(3) have "\<not> (selfStakingWeight r > 1 \<and> skipManified ?calc1)" by simp
        ultimately show ?thesis using "2.IH"(2) dup False l by blast
      qed
    qed
  qed
qed


text \<open>
  Claim C10, as amended. When \<open>AddRegistrations\<close> returns the duplicate-candidate error,
  the list splits at the duplicate; the calculator is the one that \<open>AddRegistrations\<close>
  reaches on the registrations before it, and every one of these that the manified rule
  does not skip (\<open>skipManified\<close> and a weight above 1) is in the candidate map.
\<close>

theorem AddRegistrations_not_atomic:
  assumes "AddRegistrations calc rs = (Some (Error (''Duplicate candidate '' @ nm)), calc')"
  shows "\<exists>pre d post. rs = pre @ d # post \<and> hex (name d) = nm \<and>
           AddRegistrations calc pre = (None, calc') \<and> candidates calc' nm \<noteq> None \<and>
           (\<forall>r\<in>set pre. \<not> (selfStakingWeight r > 1 \<and> skipManified calc) \<longrightarrow>
               candidates calc' (hex (name r)) = Some (NewCandidate r 0 0))"
proof -
  from assms have g: "\<not> calculated calc" "\<not> Cmp (totalVotes calc) 0 > 0"
    and l: "addRegistrationsLoop calc rs = (Some (Error (''Duplicate candidate '' @ nm)), calc')"
    by (auto simp: AddRegistrations_def split: if_splits)
  from addRegistrationsLoop_error[OF l] obtain pre d post where
    p: "rs = pre @ d # post" "''Duplicate candidate '' @ nm = ''Duplicate candidate '' @ hex (name d)"
       "addRegistrationsLoop calc pre = (None, calc')" "candidates calc' (hex (name d)) \<noteq> None"
    by auto
  from p(2) have nm: "hex (name d) = nm" by simp
  from g p(3) have "AddRegistrations calc pre = (None, calc')" by (simp add: AddRegistrations_def)
  moreover have "\<forall>r\<in>set pre. \<not> (selfStakingWeight r > 1 \<and> skipManified calc) \<longrightarrow>
               candidates calc' (hex (name r)) = Some (NewCandidate r 0 0)"
    using addRegistrationsLoop_inserted[OF p(3)] by blast
  ultimately show ?thesis using p(1,4) nm by blast
qed

theorem AddRegistrations_not_atomic_witness:
  "AddRegistrations exampleCalculator
      [exampleRegistration 0xAA 1 1, exampleRegistration 0xBB 2 1, exampleRegistration 0xAA 5 1] =
     (Some (Error (''Duplicate candidate '' @ ''aa'')), registeredCalculator) \<and>
   (\<exists>pre d post.
      [exampleRegistration 0xAA 1 1, exampleRegistration 0xBB 2 1, exampleRegistration 0xAA 5 1] =
        pre @ d # post \<and> hex (name d) = ''aa'' \<and>
      AddRegistrations exampleCalculator pre = (None, registeredCalculator) \<and>
      candidates registeredCalculator ''aa'' \<noteq> None \<and>
      (\<forall>r\<in>set pre. \<not> (selfStakingWeight r > 1 \<and> skipManified exampleCalculator) \<longrightarrow>
          candidates registeredCalculator (hex (name r)) = Some (NewCandidate r 0 0)))"
proof -
  have h: "AddRegistrations exampleCalculator
      [exampleRegistration 0xAA 1 1, exampleRegistration 0xBB 2 1, exampleRegistration 0xAA 5 1] =
     (Some (Error (''Duplicate candidate '' @ ''aa'')), registeredCalculator)"
    by (simp add: registeredCalculator_def example_defs)
  show ?thesis
    using AddRegistrations_not_atomic[OF h] h by blast
qed

text \<open>
  Claim C10 as stated fails: with \<open>skipManified\<close> set, the registration \<open>cc\<close> of weight 2
  precedes the duplicate and is not in the candidate map when the error is returned.
\<close>

theorem skipped_registration_is_not_inserted:
  "fst (AddRegistrations skippingCalculator
      [exampleRegistration 0xCC 3 2, exampleRegistration 0xAA 1 1, exampleRegistration 0xAA 5 1]) =
     Some (Error (''Duplicate candidate '' @ ''aa'')) \<and>
   candidates (snd (AddRegistrations skippingCalculator
      [exampleRegistration 0xCC 3 2, exampleRegistration 0xAA 1 1, exampleRegistration 0xAA 5 1]))
      (hex (name (exampleRegistration 0xCC 3 2))) = None"
  by (simp add: example_defs)

section \<open>The committee\<close>

lemma storeResult_state:
  assumes "storeResult env ec height result = (e, ec')"
  shows "interval ec' = interval ec \<and> nextHeight ec' = nextHeight ec"
    and "e = None \<Longrightarrow> heights (manager ec') = heights (manager ec) @ [height]"
    and "e \<noteq> None \<Longrightarrow> heights (manager ec') = heights (manager ec)"
  using assms
  by (auto simp: storeResult_def heightManager_add_def split: sum.splits option.splits prod.splits)

lemma storeHeights_log:
  "storeHeights env results errs tipTime hs ec = (out, stored, ec') \<Longrightarrow>
     (\<exists>rest. hs = map fst stored @ rest) \<and>
     (\<forall>h\<in>set (map fst stored). errs h = None) \<and>
     (\<forall>(h, n)\<in>set stored. n = h + interval ec) \<and>
     (stored \<noteq> [] \<longrightarrow> nextHeight ec' = fst (last stored) + interval ec) \<and>
     (stored = [] \<longrightarrow> nextHeight ec' = nextHeight ec) \<and>
     interval ec' = interval ec \<and>
     heights (manager ec') = heights (manager ec) @ map fst stored \<and>
     (\<forall>pre h post e. hs = pre @ h # post \<and> (\<forall>k\<in>set pre. errs k = None) \<and> errs h = Some e \<longrightarrow>
         (map fst stored = pre \<and> out = Returned (Some e)) \<or>
         (length stored < length pre \<and> stoppedEarly out))"
proof (induction hs arbitrary: ec out stored ec')
  case Nil
  then show ?case by auto
next
  case (Cons height rest)
  show ?case
  proof (cases "errs height")
    case (Some err)
    with Cons.prems have o: "out = Returned (Some err)" "stored = []" "ec' = ec" by simp_all
    have "pre = [] \<and> h = height"
      if "height # rest = pre @ h # post" "\<forall>k\<in>set pre. errs k = None" for pre h post
      using that Some by (cases pre) auto
    with o Some show ?thesis by auto
  next
    case None
    have early: ?thesis if o: "stored = []" "stoppedEarly out" "interval ec' = interval ec"
        "heights (manager ec') = heights (manager ec)" "nextHeight ec' = nextHeight ec"
    proof -
      have "pre \<noteq> []" if "height # rest = pre @ h # post" "errs h = Some e" for pre h post e
        using that None by (cases pre) auto
      with o show ?thesis by auto
    qed
    show ?thesis
    proof (cases "results height")
      case rn: None
      with None Cons.prems have "out = NilDereference" "stored = []" "ec' = ec" by simp_all
      then show ?thesis by (intro early) (simp_all add: stoppedEarly_def)
    next
      case (Some ro)
      show ?thesis
      proof (cases ro)
        case rn: None
        with Some None Cons.prems have "out = NilDereference" "stored = []" "ec' = ec" by simp_all
        then show ?thesis by (intro early) (simp_all add: stoppedEarly_def)
      next
        case (Some result)
        note res = \<open>results height = Some ro\<close> Some
        show ?thesis
        proof (cases "heightManager_validate (manager ec) height (MintTime result)")
          case (Some err)
          with res None Cons.prems have "out = Fatal err" "stored = []" "ec' = ec" by simp_all
          then show ?thesis by (intro early) (simp_all add: stoppedEarly_def)
        next
          case valid: None
          obtain e ec1 where sr: "storeResult env ec height result = (e, ec1)"
            by (cases "storeResult env ec height result")
          show ?thesis
          proof (cases e)
            case (Some err)
            with sr res None valid Cons.prems have
              "out = Returned (Some (Wrapf err ''failed to store result of height''))"
              "stored = []" "ec' = ec1" by simp_all
            then show ?thesis
              using storeResult_state(1,3)[OF sr] Some
              by (intro early) (simp_all add: stoppedEarly_def)
          next
            case ok: None
            let ?ec2 = "ec1\<lparr>nextHeight := height + interval ec1\<rparr>"
            obtain out2 stored2 ec3 where
              rec: "storeHeights env results errs tipTime rest ?ec2 = (out2, stored2, ec3)"
              by (cases "storeHeights env results errs tipTime rest ?ec2") auto
            from sr ok res None valid rec Cons.prems have
              o: "out = out2" "stored = (height, height + interval ec1) # stored2" "ec' = ec3"
              by simp_all
            from storeResult_state(1)[OF sr] have i1: "interval ec1 = interval ec" by simp
            have h1: "heights (manager ec1) = heights (manager ec) @ [height]"
              using storeResult_state(2)[OF sr] ok by simp
            from Cons.IH[OF rec] have
              ih: "\<exists>r. rest = map fst stored2 @ r"
                  "\<forall>h\<in>set (map fst stored2). errs h = None"
                  "\<forall>(h, n)\<in>set stored2. n = h + interval ?ec2"
                  "stored2 \<noteq> [] \<longrightarrow> nextHeight ec3 = fst (last stored2) + interval ?ec2"
                  "stored2 = [] \<longrightarrow> nextHeight ec3 = nextHeight ?ec2"
                  "interval ec3 = interval ?ec2"
                  "heights (manager ec3) = heights (manager ?ec2) @ map fst stored2"
                  "\<forall>pre h post e. rest = pre @ h # post \<and> (\<forall>k\<in>set pre. errs k = None) \<and> errs h = Some e \<longrightarrow>
                     (map fst stored2 = pre \<and> out2 = Returned (Some e)) \<or>
                     (length stored2 < length pre \<and> stoppedEarly out2)"
              by blast+
            have nh: "stored2 = [] \<Longrightarrow> nextHeight ec3 = height + interval ec"
              using ih(5) i1 by simp
            have first: "(map fst stored = pre \<and> out = Returned (Some e)) \<or>
                         (length stored < length pre \<and> stoppedEarly out)"
              if "height # rest = pre @ h # post" "\<forall>k\<in>set pre. errs k = None" "errs h = Some e"
              for pre h post e
            proof (cases pre)
              case Nil
              with that None show ?thesis by simp
            next
              case (Cons a pre')
              with that have "rest = pre' @ h # post" "\<forall>k\<in>set pre'. errs k = None" "a = height"
                by simp_all
              with ih(8) that(3) have "(map fst stored2 = pre' \<and> out2 = Returned (Some e)) \<or>
                     (length stored2 < length pre' \<and> stoppedEarly out2)" by blast
              with o Cons \<open>a = height\<close> show ?thesis by auto
            qed
            show ?thesis
              using ih(1-7) o i1 h1 None nh first
              by (auto simp: )
          qed
        qed
      qed
    qed
  qed
qed

text \<open>
  Claim C7. \<open>storeInBatch\<close> stores heights in strictly ascending order, as a prefix of the
  sorted keys of the batch; no height with a fetch error, nor any height after one, is
  stored; right after a height is stored \<open>nextHeight\<close> is that height plus the interval
  (in 64-bit arithmetic), and so it is at the end for the last stored height; the heights
  stored are those the height manager gained. At the first height with a fetch error the
  function returns that error, having stored every height before it, unless it stopped
  before that height (a fatal validation failure, a nil result, or a failed store).
\<close>

theorem storeInBatch_ordered_commit:
  assumes "distinct order" "set order = dom results"
      and "storeInBatch env ec results errs tipTime order = (out, stored, ec')"
  shows "sorted_wrt (<) (map fst stored) \<and>
         (\<exists>rest. sort order = map fst stored @ rest) \<and>
         (\<forall>h\<in>set order. errs h \<noteq> None \<longrightarrow> (\<forall>k\<in>set (map fst stored). k < h)) \<and>
         (\<forall>(h, n)\<in>set stored. n = h + interval ec) \<and>
         (stored \<noteq> [] \<longrightarrow> nextHeight ec' = fst (last stored) + interval ec) \<and>
         heights (manager ec') = heights (manager ec) @ map fst stored \<and>
         (\<forall>pre h post e.
            sort order = pre @ h # post \<and> (\<forall>k\<in>set pre. errs k = None) \<and> errs h = Some e \<longrightarrow>
              (map fst stored = pre \<and> out = Returned (Some e)) \<or>
              (length stored < length pre \<and> stoppedEarly out))"
proof -
  from assms(3) have sh: "storeHeights env results errs tipTime (sort order) ec = (out, stored, ec')"
    by (simp add: storeInBatch_def)
  note log = storeHeights_log[OF sh]
  from log obtain rest where rest: "sort order = map fst stored @ rest" by blast
  have strict: "sorted_wrt (<) (sort order)"
    using assms(1) by (simp add: strict_sorted_iff)
  then have s1: "sorted_wrt (<) (map fst stored)"
    and s2: "\<forall>k\<in>set (map fst stored). \<forall>h\<in>set rest. k < h"
    unfolding rest by (simp_all add: sorted_wrt_append)
  note l0 = log[THEN conjunct2, THEN conjunct1]
  have s3: "\<forall>k\<in>set (map fst stored). k < h" if "h \<in> set order" "errs h \<noteq> None" for h
  proof -
    from that(1) have "h \<in> set (sort order)" by simp
    then have "h \<in> set (map fst stored @ rest)" by (simp only: rest)
    then have "h \<in> set (map fst stored) \<or> h \<in> set rest" by (simp only: set_append Un_iff)
    moreover from l0 that(2) have "h \<notin> set (map fst stored)" by auto
    ultimately show ?thesis using s2 by blast
  qed
  have s4: "\<exists>rest. sort order = map fst stored @ rest" using rest by blast
  have s5: "\<forall>h\<in>set order. errs h \<noteq> None \<longrightarrow> (\<forall>k\<in>set (map fst stored). k < h)"
    using s3 by blast
  note l1 = log[THEN conjunct2, THEN conjunct2, THEN conjunct1]
    and l2 = log[THEN conjunct2, THEN conjunct2, THEN conjunct2, THEN conjunct1]
    and l3 = log[THEN conjunct2, THEN conjunct2, THEN conjunct2, THEN conjunct2, THEN conjunct2, THEN conjunct2, THEN conjunct1]
    and l4 = log[THEN conjunct2, THEN conjunct2, THEN conjunct2, THEN conjunct2, THEN conjunct2, THEN conjunct2, THEN conjunct2]
  show ?thesis
    by (intro conjI) (rule s1 s4 s5 l1 l2 l3 l4)+
qed

lemma example_batch:
  "sort [120, 100, 110 :: u64] = [100, 110, 120]"
  "dom exampleResults = {100, 110, 120}"
  by (auto simp: exampleResults_def)

theorem storeInBatch_ordered_commit_witness:
  "distinct [120, 100, 110 :: u64] \<and> set [120, 100, 110] = dom exampleResults \<and>
   fst (storeInBatch exampleEnv exampleCommittee exampleResults exampleErrs 2000000000000
          [120, 100, 110]) = Returned (Some (Error ''timeout'')) \<and>
   fst (snd (storeInBatch exampleEnv exampleCommittee exampleResults exampleErrs 2000000000000
          [120, 100, 110])) = [(100, 110), (110, 120)] \<and>
   nextHeight (snd (snd (storeInBatch exampleEnv exampleCommittee exampleResults exampleErrs
          2000000000000 [120, 100, 110]))) = 120 \<and>
   heights (manager (snd (snd (storeInBatch exampleEnv exampleCommittee exampleResults
          exampleErrs 2000000000000 [120, 100, 110])))) = [100, 110]"
proof -
  let ?r = "storeInBatch exampleEnv exampleCommittee exampleResults exampleErrs 2000000000000
              [120, 100, 110]"
  have d: "distinct [120, 100, 110 :: u64]" by simp
  have s: "set [120, 100, 110] = dom exampleResults" by (auto simp: example_batch)
  have r: "?r = (fst ?r, fst (snd ?r), snd (snd ?r))" by simp
  have out: "fst ?r = Returned (Some (Error ''timeout''))"
    and st: "fst (snd ?r) = [(100, 110), (110, 120)]"
    by (simp_all add: storeInBatch_def example_batch exampleResults_def exampleErrs_def
          exampleCommittee_def exampleEnv_def exampleResult_def storeResult_def dbKey_def
          heightManager_validate_def heightManager_add_def)
  from storeInBatch_ordered_commit[OF d s r] st
  have "nextHeight (snd (snd ?r)) = 110 + interval exampleCommittee"
    and "heights (manager (snd (snd ?r))) = heights (manager exampleCommittee) @ [100, 110]"
    by simp_all
  with d s out st show ?thesis by (simp add: exampleCommittee_def)
qed

text \<open>
  Claim C9. With a retry limit of 0 \<open>retryFetchResultByHeight\<close> makes no fetch attempt
  (the world is returned as it was, whatever the fetch function does) and returns a nil
  result together with a nil error, the error value of a successful fetch.
\<close>

theorem retry_limit_zero_fetches_nothing:
  assumes "retryLimit ec = 0"
  shows "retryFetchResultByHeight fetch ec height w = ((None, None), w)"
  using assms by (simp add: retryFetchResultByHeight_def retryLoop.simps[of fetch 0])


theorem retry_limit_zero_fetches_nothing_witness:
  "retryLimit exampleCommittee = 0 \<and>
   retryFetchResultByHeight failingFetch exampleCommittee 100 0 = ((None, None), 0)"
proof -
  have h: "retryLimit exampleCommittee = 0" by (simp add: exampleCommittee_def)
  show ?thesis
    using retry_limit_zero_fetches_nothing[OF h, of failingFetch 100 0] h by simp
qed

section \<open>Properties of the weighted votes\<close>

lemma bitLenNat_bound: "n < 2 ^ bitLenNat n"
proof (induction n rule: bitLenNat.induct)
  case (1 n)
  show ?case
  proof (cases "n = 0")
    case True
    then show ?thesis by (subst bitLenNat.simps) simp
  next
    case False
    with 1 have "n div 2 < 2 ^ bitLenNat (n div 2)" by blast
    then have "n < 2 * 2 ^ bitLenNat (n div 2)" by linarith
    with False show ?thesis by (subst bitLenNat.simps) simp
  qed
qed

lemma roundHalfEven_of_int: "roundHalfEven (of_int m) = m"
  by (simp add: roundHalfEven_def)

lemma roundToPrec_exact:
  assumes "\<bar>a\<bar> < 2 ^ prec"
  shows "roundToPrec prec (of_int a) = of_int a"
proof (cases "a = 0")
  case True
  then show ?thesis by (simp add: roundToPrec_def)
next
  case False
  define x :: real where "x = of_int a"
  have x0: "x \<noteq> 0" and xpos: "0 < \<bar>x\<bar>" using False by (simp_all add: x_def)
  have "\<bar>x\<bar> < 2 ^ prec" using assms unfolding x_def
    by (metis of_int_abs of_int_less_numeral_power_cancel_iff)
  then have "log 2 \<bar>x\<bar> < log 2 (2 ^ prec)" using xpos by (simp del: log_pow_cancel)
  then have "log 2 \<bar>x\<bar> < real prec" by simp
  then have "\<lfloor>log 2 \<bar>x\<bar>\<rfloor> < int prec" by linarith
  define e where "e = \<lfloor>log 2 \<bar>x\<bar>\<rfloor> + 1 - int prec"
  have e: "e \<le> 0" using \<open>\<lfloor>log 2 \<bar>x\<bar>\<rfloor> < int prec\<close> by (simp add: e_def)
  define k where "k = nat (- e)"
  have "2 powr of_int e = (1 / 2 ^ k :: real)"
  proof -
    have "of_int e = - real k" using e by (simp add: k_def)
    then show ?thesis by (simp add: powr_minus powr_realpow divide_inverse)
  qed
  then have p: "2 powr of_int e = (1 / 2 ^ k :: real)" .
  have "x / 2 powr of_int e = of_int (a * 2 ^ k)" by (simp add: p x_def)
  then have "roundHalfEven (x / 2 powr of_int e) = a * 2 ^ k"
    by (simp only: roundHalfEven_of_int)
  then have "of_int (roundHalfEven (x / 2 powr of_int e)) * 2 powr of_int e = x"
    by (simp add: p x_def)
  with x0 show ?thesis unfolding roundToPrec_def x_def e_def by simp
qed

lemma abs_less_BitLen: "\<bar>a\<bar> < 2 ^ max (BitLen a) 64"
proof -
  have "nat \<bar>a\<bar> < 2 ^ BitLen a" by (simp add: BitLen_def bitLenNat_bound)
  also have "\<dots> \<le> 2 ^ max (BitLen a) 64" by (simp add: power_increasing)
  finally have "int (nat \<bar>a\<bar>) < int (2 ^ max (BitLen a) 64)" by (simp only: of_nat_less_iff)
  then show ?thesis by simp
qed

lemma truncToInt_of_int: "truncToInt (of_int a) = a"
  by (simp add: truncToInt_def)

text \<open>
  Claim C8. For a vote of non-negative duration, \<open>calcWeightedVotes\<close> returns 0 when
  \<open>now\<close> is before the start time of the vote, and returns exactly the amount of the vote
  when \<open>now\<close> is the start time plus the duration, where no time remains and the weight
  is 1. It holds for every amount and for every float64 arithmetic of the weight.
\<close>

theorem calcWeightedVotes_boundaries:
  assumes "0 \<le> duration v"
  shows "(now < startTime v \<longrightarrow> calcWeightedVotes logWeight v now = 0) \<and>
         (now = startTime v + duration v \<longrightarrow> calcWeightedVotes logWeight v now = amount v)"
proof (intro conjI impI)
  assume "now < startTime v"
  then show "calcWeightedVotes logWeight v now = 0" by (simp add: calcWeightedVotes_def)
next
  assume n: "now = startTime v + duration v"
  with assms have "\<not> now < startTime v" by simp
  moreover from n have "RemainingTime v now = 0" by (simp add: RemainingTime_def)
  ultimately show "calcWeightedVotes logWeight v now = amount v"
    by (simp add: calcWeightedVotes_def roundToPrec_exact[OF abs_less_BitLen] truncToInt_of_int)
qed

theorem calcWeightedVotes_boundaries_witness:
  "0 \<le> duration exampleVote \<and>
   calcWeightedVotes (\<lambda>s. 1) exampleVote 999 = 0 \<and>
   calcWeightedVotes (\<lambda>s. 1) exampleVote 1500 = amount exampleVote"
proof -
  have d: "0 \<le> duration exampleVote" by (simp add: exampleVote_def)
  have "(999::int) < startTime exampleVote" by (simp add: exampleVote_def)
  moreover have "(1500::int) = startTime exampleVote + duration exampleVote"
    by (simp add: exampleVote_def)
  ultimately show ?thesis
    using d calcWeightedVotes_boundaries[OF d, of 999 "\<lambda>s. 1"]
      calcWeightedVotes_boundaries[OF d, of 1500 "\<lambda>s. 1"]
    by blast
qed

end
